theory Spec2Isabelle
  imports Main "HOL-Library.Sublist" "HOL-Library.Word"
begin

section \<open>Data model\<close>

text \<open>
  The script \<^verbatim>\<open>decompress_dicom.py\<close> walks a directory, asks pydicom for the
  transfer syntax of every \<^verbatim>\<open>.dcm\<close> file and rewrites the compressed ones with
  the pixel array decoded by SimpleITK. The two libraries and the operating
  system are not part of the repository: their behaviour appears below as
  the file contents a read returns (\<open>fcontent\<close>) and as the fields of
  \<open>env\<close>, over which every theorem is universally quantified.

  A path is the list of the components of its absolute, normalised form, so
  \<^verbatim>\<open>os.path.join(root, file)\<close> is \<open>root @ [file]\<close> and
  \<^verbatim>\<open>os.path.dirname\<close> is \<open>butlast\<close>. Characters are bytes, and
  \<^verbatim>\<open>str.lower\<close> is modelled on ASCII.
\<close>

type_synonym path = "string list"

type_synonym bytes = "8 word list"

datatype error =
    FileNotFoundError
  | InvalidDicomError
  | AttributeError
  | TypeError
  | ValueError
  | RuntimeError
  | OSError

text \<open>The value of a data element as pydicom hands it to the script.\<close>

datatype val = VInt int | VStr string | VNone | VMulti "val list"

text \<open>
  The numpy dtypes that \<^verbatim>\<open>sitk.GetArrayFromImage\<close> produces (one per SimpleITK
  pixel type), their names and their sample widths in bits.
\<close>

datatype dtype =
    UInt8 | Int8 | UInt16 | Int16 | UInt32 | Int32 | UInt64 | Int64
  | Float32 | Float64 | Complex64 | Complex128

fun dtype_name :: "dtype \<Rightarrow> string" where
  "dtype_name UInt8 = ''uint8''"
| "dtype_name Int8 = ''int8''"
| "dtype_name UInt16 = ''uint16''"
| "dtype_name Int16 = ''int16''"
| "dtype_name UInt32 = ''uint32''"
| "dtype_name Int32 = ''int32''"
| "dtype_name UInt64 = ''uint64''"
| "dtype_name Int64 = ''int64''"
| "dtype_name Float32 = ''float32''"
| "dtype_name Float64 = ''float64''"
| "dtype_name Complex64 = ''complex64''"
| "dtype_name Complex128 = ''complex128''"

fun sample_bits :: "dtype \<Rightarrow> nat" where
  "sample_bits UInt8 = 8"
| "sample_bits Int8 = 8"
| "sample_bits UInt16 = 16"
| "sample_bits Int16 = 16"
| "sample_bits UInt32 = 32"
| "sample_bits Int32 = 32"
| "sample_bits UInt64 = 64"
| "sample_bits Int64 = 64"
| "sample_bits Float32 = 32"
| "sample_bits Float64 = 64"
| "sample_bits Complex64 = 64"
| "sample_bits Complex128 = 128"

record image_array =
  dtype :: dtype
  tobytes :: bytes

record data_element =
  VR :: string
  elem_value :: bytes

text \<open>
  A pydicom dataset: the transfer syntax of its file meta information, the
  elements the script reads or writes, and all remaining elements by keyword.
  An absent element is \<open>None\<close>.
\<close>

record dataset =
  TransferSyntaxUID :: "string option"
  PixelData :: "data_element option"
  SeriesInstanceUID :: "val option"
  StudyInstanceUID :: "val option"
  SeriesNumber :: "val option"
  ImageOrientationPatient :: "val option"
  ImagePositionPatient :: "val option"
  InstanceNumber :: "val option"
  other_elements :: "(string \<times> val) list"

datatype fcontent = DicomFile dataset | OtherFile bytes

datatype level = DEBUG | ERROR

datatype message =
    Error_reading_file path error
  | Failed_to_decompress_file path error
  | Decompressed_and_saved_file path
  | Compressed_file_found path
  | File_is_already_uncompressed path

record world =
  files :: "path \<rightharpoonup> fcontent"
  log_records :: "(level \<times> message) list"

text \<open>
  What the script cannot decide by itself: the array SimpleITK decodes from a
  file, whether writing a dataset to a path raises (and what is then left at
  the path: \<open>None\<close> when the path was not touched), and whether creating a
  directory raises.
\<close>

record env =
  sitk_ReadImage :: "fcontent \<Rightarrow> error + image_array"
  save_failure :: "path \<Rightarrow> dataset \<Rightarrow> (error \<times> fcontent option) option"
  makedirs_failure :: "path \<Rightarrow> error option"

section \<open>Library operations\<close>

definition logging :: "level \<Rightarrow> message \<Rightarrow> world \<Rightarrow> world" where
  "logging lvl msg w = w\<lparr>log_records := log_records w @ [(lvl, msg)]\<rparr>"

text \<open>
  \<^verbatim>\<open>pydicom.dcmread(path, stop_before_pixels)\<close>: a missing file and a file that
  is not DICOM raise; with \<^verbatim>\<open>stop_before_pixels=True\<close> the pixel data element
  is not loaded.
\<close>

definition dcmread :: "world \<Rightarrow> path \<Rightarrow> bool \<Rightarrow> error + dataset" where
  "dcmread w file_path stop_before_pixels =
     (case files w file_path of
        None \<Rightarrow> Inl FileNotFoundError
      | Some (OtherFile _) \<Rightarrow> Inl InvalidDicomError
      | Some (DicomFile ds) \<Rightarrow>
          Inr (if stop_before_pixels then ds\<lparr>PixelData := None\<rparr> else ds))"

definition sitk_GetArrayFromImage :: "env \<Rightarrow> world \<Rightarrow> path \<Rightarrow> error + image_array" where
  "sitk_GetArrayFromImage env w file_path =
     (case files w file_path of
        None \<Rightarrow> Inl RuntimeError
      | Some c \<Rightarrow> sitk_ReadImage env c)"

definition save_as :: "env \<Rightarrow> dataset \<Rightarrow> path \<Rightarrow> world \<Rightarrow> (error + unit) \<times> world" where
  "save_as env ds output_path w =
     (case save_failure env output_path ds of
        None \<Rightarrow> (Inr (), w\<lparr>files := (files w)(output_path \<mapsto> DicomFile ds)\<rparr>)
      | Some (e, None) \<Rightarrow> (Inl e, w)
      | Some (e, Some c) \<Rightarrow> (Inl e, w\<lparr>files := (files w)(output_path \<mapsto> c)\<rparr>))"

text \<open>Attribute access on a dataset raises when the element is absent.\<close>

definition getattr :: "'a option \<Rightarrow> error + 'a" where
  "getattr field = (case field of None \<Rightarrow> Inl AttributeError | Some v \<Rightarrow> Inr v)"

text \<open>
  \<^verbatim>\<open>len(ds)\<close> counts the elements of a dataset (the file meta information is
  not one of them); a dataset is true in a condition when it has an element,
  and \<^verbatim>\<open>None\<close> is false.
\<close>

definition dataset_len :: "dataset \<Rightarrow> nat" where
  "dataset_len ds =
     (if PixelData ds = None then 0 else 1)
     + length (filter (\<lambda>f. f ds \<noteq> None)
         [SeriesInstanceUID, StudyInstanceUID, SeriesNumber,
          ImageOrientationPatient, ImagePositionPatient, InstanceNumber])
     + length (other_elements ds)"

definition truthy :: "dataset option \<Rightarrow> bool" where
  "truthy reference_metadata =
     (case reference_metadata of None \<Rightarrow> False | Some r \<Rightarrow> 0 < dataset_len r)"

subsection \<open>\<^verbatim>\<open>int(x)\<close>\<close>

definition is_space :: "char \<Rightarrow> bool" where
  "is_space c = (c \<in> set [CHR 0x09, CHR 0x0A, CHR 0x0B, CHR 0x0C, CHR 0x0D,
                           CHR 0x1C, CHR 0x1D, CHR 0x1E, CHR 0x1F, CHR 0x20])"

definition strip :: "string \<Rightarrow> string" where
  "strip s = rev (dropWhile is_space (rev (dropWhile is_space s)))"

definition digit_val :: "char \<Rightarrow> nat option" where
  "digit_val c =
     (if (48::nat) \<le> of_char c \<and> of_char c \<le> (57::nat) then Some (of_char c - 48) else None)"

text \<open>
  Decimal digits, with single underscores allowed between two digits; the
  flag says whether the previous character was a digit.
\<close>

fun parse_digits :: "nat \<Rightarrow> bool \<Rightarrow> string \<Rightarrow> nat option" where
  "parse_digits acc prev_digit [] = (if prev_digit then Some acc else None)"
| "parse_digits acc prev_digit (c # cs) =
     (if c = CHR ''_'' then (if prev_digit then parse_digits acc False cs else None)
      else (case digit_val c of
              None \<Rightarrow> None
            | Some d \<Rightarrow> parse_digits (10 * acc + d) True cs))"

definition str_to_int :: "string \<Rightarrow> int option" where
  "str_to_int s =
     (case strip s of
        [] \<Rightarrow> None
      | c # cs \<Rightarrow>
          if c = CHR ''-'' then map_option (\<lambda>n. - int n) (parse_digits 0 False cs)
          else if c = CHR ''+'' then map_option int (parse_digits 0 False cs)
          else map_option int (parse_digits 0 False (c # cs)))"

fun py_int :: "val \<Rightarrow> error + int" where
  "py_int (VInt n) = Inr n"
| "py_int (VStr s) = (case str_to_int s of None \<Rightarrow> Inl ValueError | Some n \<Rightarrow> Inr n)"
| "py_int VNone = Inl TypeError"
| "py_int (VMulti vs) = Inl TypeError"

subsection \<open>Strings and paths\<close>

definition lower_char :: "char \<Rightarrow> char" where
  "lower_char c =
     (if (65::nat) \<le> of_char c \<and> of_char c \<le> (90::nat) then char_of (of_char c + (32::nat)) else c)"

definition lower :: "string \<Rightarrow> string" where
  "lower s = map lower_char s"

definition endswith :: "string \<Rightarrow> string \<Rightarrow> bool" where
  "endswith s suf = suffix suf s"

definition path_string :: "path \<Rightarrow> string" where
  "path_string p = concat (map (\<lambda>c. CHR ''/'' # c) p)"

fun commonprefix :: "'a list \<Rightarrow> 'a list \<Rightarrow> 'a list" where
  "commonprefix (x # xs) (y # ys) = (if x = y then x # commonprefix xs ys else [])"
| "commonprefix _ _ = []"

text \<open>
  \<^verbatim>\<open>os.path.relpath(path, start)\<close> on component lists: one \<^verbatim>\<open>..\<close> for every
  component of \<open>start\<close> below the common prefix, then the rest of \<open>path\<close>.
\<close>

definition relpath :: "path \<Rightarrow> path \<Rightarrow> path" where
  "relpath p start =
     (let i = length (commonprefix start p);
          rel_list = replicate (length start - i) ''..'' @ drop i p
      in if rel_list = [] then [''.''] else rel_list)"

definition dirname :: "path \<Rightarrow> path" where
  "dirname p = butlast p"

section \<open>The script\<close>

definition compressed_uids :: "string list" where
  "compressed_uids =
     [''1.2.840.10008.1.2.4.50'',
      ''1.2.840.10008.1.2.4.51'',
      ''1.2.840.10008.1.2.4.52'',
      ''1.2.840.10008.1.2.4.53'',
      ''1.2.840.10008.1.2.4.54'',
      ''1.2.840.10008.1.2.4.55'',
      ''1.2.840.10008.1.2.4.56'',
      ''1.2.840.10008.1.2.4.57'',
      ''1.2.840.10008.1.2.4.58'',
      ''1.2.840.10008.1.2.4.59'',
      ''1.2.840.10008.1.2.4.60'',
      ''1.2.840.10008.1.2.4.61'',
      ''1.2.840.10008.1.2.4.62'',
      ''1.2.840.10008.1.2.4.63'',
      ''1.2.840.10008.1.2.4.64'',
      ''1.2.840.10008.1.2.4.65'',
      ''1.2.840.10008.1.2.4.66'',
      ''1.2.840.10008.1.2.4.70'',
      ''1.2.840.10008.1.2.4.80'',
      ''1.2.840.10008.1.2.4.81'',
      ''1.2.840.10008.1.2.4.90'',
      ''1.2.840.10008.1.2.4.91'',
      ''1.2.840.10008.1.2.4.92'',
      ''1.2.840.10008.1.2.4.93'',
      ''1.2.840.10008.1.2.4.94'',
      ''1.2.840.10008.1.2.4.95'',
      ''1.2.840.10008.1.2.5'',
      ''1.2.840.10008.1.2.4.100'',
      ''1.2.840.10008.1.2.4.102'',
      ''1.2.840.10008.1.2.4.103'',
      ''1.2.840.10008.1.2.4.201'',
      ''1.2.840.10008.1.2.4.202'',
      ''1.2.840.10008.1.2.4.203'']"

definition ExplicitVRLittleEndian :: string where
  "ExplicitVRLittleEndian = ''1.2.840.10008.1.2.1''"

text \<open>
  \<^verbatim>\<open>is_compressed\<close>: the header is read without the pixels; a failing read
  or a missing transfer syntax is logged and answered with \<open>False\<close>.
\<close>

definition is_compressed :: "path \<Rightarrow> world \<Rightarrow> bool \<times> world" where
  "is_compressed file_path w =
     (case dcmread w file_path True of
        Inl e \<Rightarrow> (False, logging ERROR (Error_reading_file file_path e) w)
      | Inr ds \<Rightarrow>
          (case getattr (TransferSyntaxUID ds) of
             Inl e \<Rightarrow> (False, logging ERROR (Error_reading_file file_path e) w)
           | Inr transfer_syntax \<Rightarrow> (transfer_syntax \<in> set compressed_uids, w)))"

text \<open>
  Lines 106 to 111: the five series fields are read from the reference one
  after the other (each read may raise) and stored in the dataset.
\<close>

definition stamp_reference :: "dataset \<Rightarrow> dataset \<Rightarrow> error + dataset" where
  "stamp_reference reference_metadata ds =
     (case getattr (SeriesInstanceUID reference_metadata) of
        Inl e \<Rightarrow> Inl e
      | Inr series_uid \<Rightarrow>
     (case getattr (StudyInstanceUID reference_metadata) of
        Inl e \<Rightarrow> Inl e
      | Inr study_uid \<Rightarrow>
     (case getattr (SeriesNumber reference_metadata) of
        Inl e \<Rightarrow> Inl e
      | Inr series_number \<Rightarrow>
     (case getattr (ImageOrientationPatient reference_metadata) of
        Inl e \<Rightarrow> Inl e
      | Inr orientation \<Rightarrow>
     (case getattr (ImagePositionPatient reference_metadata) of
        Inl e \<Rightarrow> Inl e
      | Inr position \<Rightarrow>
          Inr (ds\<lparr>SeriesInstanceUID := Some series_uid,
                  StudyInstanceUID := Some study_uid,
                  SeriesNumber := Some series_number,
                  ImageOrientationPatient := Some orientation,
                  ImagePositionPatient := Some position\<rparr>))))))"

text \<open>
  Lines 99 to 104: the decoded array replaces the pixel data, and the value
  representation of the element follows the dtype of the array.
\<close>

definition set_pixel_data :: "image_array \<Rightarrow> dataset \<Rightarrow> dataset" where
  "set_pixel_data image_array ds =
     (let ds1 = ds\<lparr>PixelData := Some \<lparr>VR = ''OB or OW'', elem_value = tobytes image_array\<rparr>\<rparr>
      in if dtype_name (dtype image_array) \<in> set [''uint16'', ''int16'']
         then ds1\<lparr>PixelData := map_option (\<lambda>el. el\<lparr>VR := ''OW''\<rparr>) (PixelData ds1)\<rparr>
         else ds1\<lparr>PixelData := map_option (\<lambda>el. el\<lparr>VR := ''OB''\<rparr>) (PixelData ds1)\<rparr>)"

text \<open>
  Lines 106 to 113: the dataset after the branch. In the \<^verbatim>\<open>else\<close> branch
  \<^verbatim>\<open>reference_metadata = ds\<close> binds the dataset object itself, so the value
  returned at line 124 is then the dataset as it is written.
\<close>

definition apply_reference :: "dataset option \<Rightarrow> dataset \<Rightarrow> error + dataset" where
  "apply_reference reference_metadata ds =
     (if truthy reference_metadata
      then stamp_reference (the reference_metadata) ds
      else Inr ds)"

text \<open>Lines 115 to 118.\<close>

definition normalize_instance_number :: "dataset \<Rightarrow> error + dataset" where
  "normalize_instance_number ds =
     (case InstanceNumber ds of
        Some v \<Rightarrow>
          (case py_int v of
             Inl e \<Rightarrow> Inl e
           | Inr n \<Rightarrow> Inr (ds\<lparr>InstanceNumber := Some (VInt n)\<rparr>))
      | None \<Rightarrow> Inr (ds\<lparr>InstanceNumber := Some (VInt 1)\<rparr>))"

text \<open>
  The body of the \<^verbatim>\<open>try\<close> block of \<^verbatim>\<open>decompress_and_save_with_metadata\<close>
  (lines 97 to 124): the result is the exception raised or the value
  returned, with the world as the block leaves it.
\<close>

definition try_block ::
  "env \<Rightarrow> path \<Rightarrow> path \<Rightarrow> dataset option \<Rightarrow> world \<Rightarrow> (error + dataset) \<times> world" where
  "try_block env file_path output_path reference_metadata w =
     (case dcmread w file_path False of
        Inl e \<Rightarrow> (Inl e, w)
      | Inr ds \<Rightarrow>
     (case sitk_GetArrayFromImage env w file_path of
        Inl e \<Rightarrow> (Inl e, w)
      | Inr image_array \<Rightarrow>
     (case apply_reference reference_metadata (set_pixel_data image_array ds) of
        Inl e \<Rightarrow> (Inl e, w)
      | Inr ds3 \<Rightarrow>
     (case normalize_instance_number ds3 of
        Inl e \<Rightarrow> (Inl e, w)
      | Inr ds4 \<Rightarrow>
     (let ds5 = ds4\<lparr>TransferSyntaxUID := Some ExplicitVRLittleEndian\<rparr> in
      (case save_as env ds5 output_path w of
         (Inl e, w') \<Rightarrow> (Inl e, w')
       | (Inr u, w') \<Rightarrow>
           (Inr (if truthy reference_metadata then the reference_metadata else ds5),
            logging DEBUG (Decompressed_and_saved_file output_path) w')))))))"

text \<open>
  \<^verbatim>\<open>decompress_and_save_with_metadata\<close>: \<open>None\<close> is Python's \<^verbatim>\<open>None\<close>, returned
  after the exception has been logged.
\<close>

definition decompress_and_save_with_metadata ::
  "env \<Rightarrow> path \<Rightarrow> path \<Rightarrow> dataset option \<Rightarrow> world \<Rightarrow> dataset option \<times> world" where
  "decompress_and_save_with_metadata env file_path output_path reference_metadata w =
     (case try_block env file_path output_path reference_metadata w of
        (Inr r, w') \<Rightarrow> (Some r, w')
      | (Inl e, w') \<Rightarrow> (None, logging ERROR (Failed_to_decompress_file file_path e) w'))"

text \<open>
  The body of the inner loop of \<^verbatim>\<open>process_dicom_directory\<close> (lines 137 to
  151) for one file name of one directory. The first component of the
  result is the exception that leaves the loop, if any: only
  \<^verbatim>\<open>os.makedirs\<close> is called outside a \<^verbatim>\<open>try\<close>. The converter is called with
  two arguments and its result is dropped. An \<open>output_dir\<close> of \<open>None\<close> stands
  for every false value of the option (\<^verbatim>\<open>None\<close> or the empty string).
\<close>

definition process_file ::
  "env \<Rightarrow> path \<Rightarrow> path option \<Rightarrow> path \<Rightarrow> string \<Rightarrow> world \<Rightarrow> error option \<times> world" where
  "process_file env input_dir output_dir root file w =
     (let file_path = root @ [file] in
      if endswith (lower (path_string file_path)) ''.dcm'' then
        (case is_compressed file_path w of
           (True, w1) \<Rightarrow>
             let w2 = logging DEBUG (Compressed_file_found file_path) w1 in
             (case output_dir of
                Some out \<Rightarrow>
                  let relative_path = relpath file_path input_dir;
                      output_file_path = out @ relative_path
                  in (case makedirs_failure env (dirname output_file_path) of
                        Some e \<Rightarrow> (Some e, w2)
                      | None \<Rightarrow>
                          (None, snd (decompress_and_save_with_metadata env file_path
                                        output_file_path None w2)))
              | None \<Rightarrow>
                  (None, snd (decompress_and_save_with_metadata env file_path file_path None w2)))
         | (False, w1) \<Rightarrow> (None, logging DEBUG (File_is_already_uncompressed file_path) w1))
      else (None, w))"

fun process_files ::
  "env \<Rightarrow> path \<Rightarrow> path option \<Rightarrow> path \<Rightarrow> string list \<Rightarrow> world \<Rightarrow> error option \<times> world" where
  "process_files env input_dir output_dir root [] w = (None, w)"
| "process_files env input_dir output_dir root (file # rest) w =
     (case process_file env input_dir output_dir root file w of
        (Some e, w') \<Rightarrow> (Some e, w')
      | (None, w') \<Rightarrow> process_files env input_dir output_dir root rest w')"

text \<open>
  \<^verbatim>\<open>process_dicom_directory\<close>, over the triples \<^verbatim>\<open>(root, dirs, files)\<close> that
  \<^verbatim>\<open>os.walk(input_dir)\<close> yields during the run, in the order it yields them.
\<close>

fun process_dicom_directory ::
  "env \<Rightarrow> (path \<times> string list \<times> string list) list \<Rightarrow> path \<Rightarrow> path option \<Rightarrow> world
     \<Rightarrow> error option \<times> world" where
  "process_dicom_directory env [] input_dir output_dir w = (None, w)"
| "process_dicom_directory env ((root, dirs, fnames) # walk) input_dir output_dir w =
     (case process_files env input_dir output_dir root fnames w of
        (Some e, w') \<Rightarrow> (Some e, w')
      | (None, w') \<Rightarrow> process_dicom_directory env walk input_dir output_dir w')"

section \<open>The walk, flattened\<close>

text \<open>
  The files of a walk in the order the two loops of
  \<^verbatim>\<open>process_dicom_directory\<close> reach them, each with its directory, and the
  loop body run over such a list.
\<close>

definition enumerated :: "(path \<times> string list \<times> string list) list \<Rightarrow> (path \<times> string) list" where
  "enumerated walk = concat (map (\<lambda>(root, dirs, fnames). map (Pair root) fnames) walk)"

fun process_paths ::
  "env \<Rightarrow> path \<Rightarrow> path option \<Rightarrow> (path \<times> string) list \<Rightarrow> world \<Rightarrow> error option \<times> world" where
  "process_paths env input_dir output_dir [] w = (None, w)"
| "process_paths env input_dir output_dir ((root, file) # rest) w =
     (case process_file env input_dir output_dir root file w of
        (Some e, w') \<Rightarrow> (Some e, w')
      | (None, w') \<Rightarrow> process_paths env input_dir output_dir rest w')"

section \<open>The walker as the specification words it\<close>

text \<open>
  The specification filters on the name of the file (``files whose name
  (case-insensitive) ends with the expected image-file extension'') and
  places the output at the ``same relative path under \<^verbatim>\<open>outputRoot\<close> if given,
  else overwrite in place''. The relative path of a file below the input
  root is what remains of its path after the components of the root.
\<close>

definition name_matches_spec :: "string \<Rightarrow> bool" where
  "name_matches_spec name = endswith (lower name) ''.dcm''"

definition output_path_spec :: "path \<Rightarrow> path option \<Rightarrow> path \<Rightarrow> path" where
  "output_path_spec input_root output_root file_path =
     (case output_root of
        None \<Rightarrow> file_path
      | Some out \<Rightarrow> out @ drop (length input_root) file_path)"

text \<open>The output paths of all listed files whose name matches.\<close>

definition output_paths_spec :: "path \<Rightarrow> path option \<Rightarrow> (path \<times> string) list \<Rightarrow> path set" where
  "output_paths_spec input_root output_root listing =
     set (map (\<lambda>(root, file). output_path_spec input_root output_root (root @ [file]))
            (filter (\<lambda>(root, file). name_matches_spec file) listing))"

text \<open>
  One file of the walk: ``classify it; if compressed, compute the output
  path, ensure the output's parent directories exist, and invoke the
  converter. If not compressed, skip with a debug-level note.'' A failure to
  create the directories is outside the caught scope and ends the walk.
\<close>

definition walk_step_spec ::
  "env \<Rightarrow> path \<Rightarrow> path option \<Rightarrow> path \<Rightarrow> string \<Rightarrow> world \<Rightarrow> error option \<times> world" where
  "walk_step_spec env input_root output_root dir name w =
     (let file_path = dir @ [name] in
      if name_matches_spec name \<and> fst (is_compressed file_path w)
      then (let w2 = logging DEBUG (Compressed_file_found file_path) w;
                output_path = output_path_spec input_root output_root file_path
            in case (if output_root = None then None
                     else makedirs_failure env (butlast output_path)) of
                 Some e \<Rightarrow> (Some e, w2)
               | None \<Rightarrow>
                   (None, snd (decompress_and_save_with_metadata env file_path
                                 output_path None w2)))
      else (None,
            if name_matches_spec name
            then logging DEBUG (File_is_already_uncompressed file_path)
                   (snd (is_compressed file_path w))
            else w))"

fun walkAndConvert_spec ::
  "env \<Rightarrow> path \<Rightarrow> path option \<Rightarrow> (path \<times> string) list \<Rightarrow> world \<Rightarrow> error option \<times> world" where
  "walkAndConvert_spec env input_root output_root [] w = (None, w)"
| "walkAndConvert_spec env input_root output_root ((dir, name) # rest) w =
     (case walk_step_spec env input_root output_root dir name w of
        (Some e, w') \<Rightarrow> (Some e, w')
      | (None, w') \<Rightarrow> walkAndConvert_spec env input_root output_root rest w')"

section \<open>Sample inputs\<close>

text \<open>
  A JPEG baseline file \<^verbatim>\<open>in/a.dcm\<close> beside a text file, a second compressed
  file of another series, and an environment in which every decode of a
  DICOM file yields a 16-bit array and no write fails.
\<close>

definition sample_dataset :: dataset where
  "sample_dataset =
     \<lparr>TransferSyntaxUID = Some ''1.2.840.10008.1.2.4.50'',
      PixelData = Some \<lparr>VR = ''OB'', elem_value = [0xFF, 0xD8]\<rparr>,
      SeriesInstanceUID = Some (VStr ''1.2.3.1''),
      StudyInstanceUID = Some (VStr ''1.2.3''),
      SeriesNumber = Some (VInt 4),
      ImageOrientationPatient =
        Some (VMulti [VStr ''1'', VStr ''0'', VStr ''0'', VStr ''0'', VStr ''1'', VStr ''0'']),
      ImagePositionPatient = Some (VMulti [VStr ''0'', VStr ''0'', VStr ''5'']),
      InstanceNumber = Some (VStr '' 7 ''),
      other_elements = [(''PatientID'', VStr ''P1'')]\<rparr>"

definition other_series_dataset :: dataset where
  "other_series_dataset =
     \<lparr>TransferSyntaxUID = Some ''1.2.840.10008.1.2.4.90'',
      PixelData = Some \<lparr>VR = ''OB'', elem_value = [0xFF, 0x4F]\<rparr>,
      SeriesInstanceUID = Some (VStr ''9.9.9.1''),
      StudyInstanceUID = Some (VStr ''9.9.9''),
      SeriesNumber = Some (VInt 2),
      ImageOrientationPatient =
        Some (VMulti [VStr ''0'', VStr ''1'', VStr ''0'', VStr ''0'', VStr ''0'', VStr ''1'']),
      ImagePositionPatient = Some (VMulti [VStr ''3'', VStr ''0'', VStr ''0'']),
      InstanceNumber = None,
      other_elements = []\<rparr>"

definition bad_instance_dataset :: dataset where
  "bad_instance_dataset = sample_dataset\<lparr>InstanceNumber := Some (VStr ''seven'')\<rparr>"

definition sample_env :: env where
  "sample_env =
     \<lparr>sitk_ReadImage = (\<lambda>c. case c of
          DicomFile ds \<Rightarrow> Inr \<lparr>dtype = UInt16, tobytes = [1, 0, 2, 0]\<rparr>
        | OtherFile b \<Rightarrow> Inl RuntimeError),
      save_failure = (\<lambda>p ds. None),
      makedirs_failure = (\<lambda>p. None)\<rparr>"

definition sample_world :: world where
  "sample_world =
     \<lparr>files = [[''in'', ''a.dcm''] \<mapsto> DicomFile sample_dataset,
               [''in'', ''b.txt''] \<mapsto> OtherFile [0x68, 0x69]],
      log_records = []\<rparr>"

definition two_series_world :: world where
  "two_series_world =
     \<lparr>files = [[''in'', ''a.dcm''] \<mapsto> DicomFile sample_dataset,
               [''in'', ''b.dcm''] \<mapsto> DicomFile other_series_dataset],
      log_records = []\<rparr>"

definition bad_instance_world :: world where
  "bad_instance_world =
     \<lparr>files = [[''in'', ''a.dcm''] \<mapsto> DicomFile bad_instance_dataset],
      log_records = []\<rparr>"

definition failing_env :: env where
  "failing_env = sample_env\<lparr>sitk_ReadImage := (\<lambda>c. Inl RuntimeError)\<rparr>"

definition sample_walk :: "(path \<times> string list \<times> string list) list" where
  "sample_walk = [([''in''], [], [''a.dcm'', ''b.txt''])]"

definition two_series_walk :: "(path \<times> string list \<times> string list) list" where
  "two_series_walk = [([''in''], [], [''a.dcm'', ''b.dcm''])]"

text \<open>The file \<^verbatim>\<open>in/series1/IMG1.DCM\<close> one directory below the input root.\<close>

definition nested_world :: world where
  "nested_world =
     \<lparr>files = [[''in'', ''series1'', ''IMG1.DCM''] \<mapsto> DicomFile sample_dataset],
      log_records = []\<rparr>"

definition nested_walk :: "(path \<times> string list \<times> string list) list" where
  "nested_walk = [([''in''], [''series1''], []), ([''in'', ''series1''], [], [''IMG1.DCM''])]"

section \<open>The converter\<close>

lemmas sample_defs =
  sample_world_def two_series_world_def bad_instance_world_def nested_world_def
  sample_env_def failing_env_def
  sample_dataset_def other_series_dataset_def bad_instance_dataset_def
  sample_walk_def two_series_walk_def nested_walk_def

lemmas converter_defs =
  decompress_and_save_with_metadata_def try_block_def dcmread_def
  sitk_GetArrayFromImage_def apply_reference_def stamp_reference_def getattr_def truthy_def
  dataset_len_def set_pixel_data_def normalize_instance_number_def save_as_def logging_def Let_def

lemmas string_defs =
  endswith_def lower_def lower_char_def path_string_def suffix_Cons

lemmas int_defs = str_to_int_def strip_def is_space_def digit_val_def

lemma pixel_vr_cases:
  "(dtype_name d \<in> set [''uint16'', ''int16'']) = (d = UInt16 \<or> d = Int16)"
  by (cases d) simp_all

lemma sample_bits_16: "(sample_bits d = 16) = (d = UInt16 \<or> d = Int16)"
  by (cases d) simp_all

lemma set_pixel_data_eq:
  "set_pixel_data arr ds =
     ds\<lparr>PixelData := Some \<lparr>VR = (if dtype arr = UInt16 \<or> dtype arr = Int16 then ''OW'' else ''OB''),
                             elem_value = tobytes arr\<rparr>\<rparr>"
  unfolding set_pixel_data_def Let_def pixel_vr_cases by simp

lemma stamp_reference_Inr:
  assumes "stamp_reference r ds = Inr ds'"
  obtains v1 v2 v3 v4 v5 where
    "SeriesInstanceUID r = Some v1" "StudyInstanceUID r = Some v2" "SeriesNumber r = Some v3"
    "ImageOrientationPatient r = Some v4" "ImagePositionPatient r = Some v5"
    "ds' = ds\<lparr>SeriesInstanceUID := Some v1, StudyInstanceUID := Some v2, SeriesNumber := Some v3,
               ImageOrientationPatient := Some v4, ImagePositionPatient := Some v5\<rparr>"
  using assms unfolding stamp_reference_def getattr_def
  by (auto split: option.splits)

lemma normalize_instance_number_Inr:
  assumes "normalize_instance_number ds = Inr ds'"
  obtains n where
    "(case InstanceNumber ds of Some v \<Rightarrow> py_int v | None \<Rightarrow> Inr 1) = Inr n"
    "ds' = ds\<lparr>InstanceNumber := Some (VInt n)\<rparr>"
  using assms unfolding normalize_instance_number_def
  by (auto split: option.splits sum.splits)

lemma apply_reference_InstanceNumber:
  assumes "apply_reference ref ds = Inr ds'"
  shows "InstanceNumber ds' = InstanceNumber ds"
    and "PixelData ds' = PixelData ds"
    and "other_elements ds' = other_elements ds"
proof -
  have "InstanceNumber ds' = InstanceNumber ds \<and> PixelData ds' = PixelData ds
          \<and> other_elements ds' = other_elements ds"
  proof (cases "truthy ref")
    case True
    with assms have "stamp_reference (the ref) ds = Inr ds'" by (simp add: apply_reference_def)
    then show ?thesis by (rule stamp_reference_Inr) simp
  next
    case False
    with assms show ?thesis by (simp add: apply_reference_def)
  qed
  then show "InstanceNumber ds' = InstanceNumber ds" and "PixelData ds' = PixelData ds"
    and "other_elements ds' = other_elements ds" by simp_all
qed

text \<open>What a successful run of the \<^verbatim>\<open>try\<close> block went through.\<close>

lemma try_block_Inr:
  assumes "try_block env fp out ref w = (Inr r, w')"
  obtains ds arr ds3 ds4 where
    "dcmread w fp False = Inr ds"
    "sitk_GetArrayFromImage env w fp = Inr arr"
    "apply_reference ref (set_pixel_data arr ds) = Inr ds3"
    "normalize_instance_number ds3 = Inr ds4"
    "save_failure env out (ds4\<lparr>TransferSyntaxUID := Some ExplicitVRLittleEndian\<rparr>) = None"
    "w' = logging DEBUG (Decompressed_and_saved_file out)
            (w\<lparr>files := (files w)(out \<mapsto>
               DicomFile (ds4\<lparr>TransferSyntaxUID := Some ExplicitVRLittleEndian\<rparr>))\<rparr>)"
    "r = (if truthy ref then the ref else ds4\<lparr>TransferSyntaxUID := Some ExplicitVRLittleEndian\<rparr>)"
proof -
  from assms obtain ds where 1: "dcmread w fp False = Inr ds"
    unfolding try_block_def by (cases "dcmread w fp False") auto
  from assms 1 obtain arr where 2: "sitk_GetArrayFromImage env w fp = Inr arr"
    unfolding try_block_def by (cases "sitk_GetArrayFromImage env w fp") auto
  from assms 1 2 obtain ds3 where 3: "apply_reference ref (set_pixel_data arr ds) = Inr ds3"
    unfolding try_block_def by (cases "apply_reference ref (set_pixel_data arr ds)") auto
  from assms 1 2 3 obtain ds4 where 4: "normalize_instance_number ds3 = Inr ds4"
    unfolding try_block_def by (cases "normalize_instance_number ds3") auto
  let ?ds5 = "ds4\<lparr>TransferSyntaxUID := Some ExplicitVRLittleEndian\<rparr>"
  from assms 1 2 3 4 have 5: "save_failure env out ?ds5 = None"
    unfolding try_block_def save_as_def Let_def
    by (cases "save_failure env out ?ds5") (auto split: option.splits)
  from assms 1 2 3 4 5 have 6: "w' = logging DEBUG (Decompressed_and_saved_file out)
            (w\<lparr>files := (files w)(out \<mapsto> DicomFile ?ds5)\<rparr>)"
    and 7: "r = (if truthy ref then the ref else ?ds5)"
    unfolding try_block_def save_as_def Let_def by auto
  from 1 2 3 4 5 6 7 that show thesis by blast
qed

lemma converter_Some:
  "decompress_and_save_with_metadata env fp out ref w = (Some r, w') \<longleftrightarrow>
   try_block env fp out ref w = (Inr r, w')"
  unfolding decompress_and_save_with_metadata_def
  by (auto split: prod.splits sum.splits)

lemma explicit_not_compressed: "ExplicitVRLittleEndian \<notin> set compressed_uids"
  by (simp add: ExplicitVRLittleEndian_def compressed_uids_def)

lemma sample_conversion:
  "\<exists>r w'. decompress_and_save_with_metadata sample_env [''in'', ''a.dcm''] [''out'', ''a.dcm''] None
            sample_world = (Some r, w')"
  by (simp add: converter_defs sample_defs int_defs)

lemma sample_conversion_with_reference:
  "\<exists>r w'. decompress_and_save_with_metadata sample_env [''in'', ''a.dcm''] [''out'', ''a.dcm'']
            (Some other_series_dataset) sample_world = (Some r, w')"
  by (simp add: converter_defs sample_defs int_defs)

text \<open>
  Claim C1. Whenever the converter succeeds, the file it has written at the
  output path carries the explicit-VR little-endian transfer syntax, which
  is none of the compressed identifiers: the classifier answers \<open>False\<close> on
  the output.
\<close>

theorem C1_output_transfer_syntax:
  assumes "decompress_and_save_with_metadata env file_path output_path reference_metadata w
             = (Some r, w')"
  shows "\<exists>ds. files w' output_path = Some (DicomFile ds)
            \<and> TransferSyntaxUID ds = Some ExplicitVRLittleEndian
            \<and> ExplicitVRLittleEndian \<notin> set compressed_uids
            \<and> is_compressed output_path w' = (False, w')"
proof -
  from assms have "try_block env file_path output_path reference_metadata w = (Inr r, w')"
    by (simp add: converter_Some)
  then obtain ds4 where
    w': "w' = logging DEBUG (Decompressed_and_saved_file output_path)
            (w\<lparr>files := (files w)(output_path \<mapsto>
                 DicomFile (ds4\<lparr>TransferSyntaxUID := Some ExplicitVRLittleEndian\<rparr>))\<rparr>)"
    by (rule try_block_Inr)
  let ?ds = "ds4\<lparr>TransferSyntaxUID := Some ExplicitVRLittleEndian\<rparr>"
  have f: "files w' output_path = Some (DicomFile ?ds)"
    by (simp add: w' logging_def)
  have t: "TransferSyntaxUID ?ds = Some ExplicitVRLittleEndian" by simp
  have "is_compressed output_path w' = (False, w')"
    using f explicit_not_compressed by (simp add: is_compressed_def dcmread_def getattr_def)
  with f t explicit_not_compressed show ?thesis by blast
qed

theorem C1_output_transfer_syntax_witness:
  "\<exists>r w'. decompress_and_save_with_metadata sample_env [''in'', ''a.dcm''] [''out'', ''a.dcm''] None
             sample_world = (Some r, w')
     \<and> (\<exists>ds. files w' [''out'', ''a.dcm''] = Some (DicomFile ds)
            \<and> TransferSyntaxUID ds = Some ''1.2.840.10008.1.2.1'')"
proof -
  from sample_conversion obtain r w' where
    h: "decompress_and_save_with_metadata sample_env [''in'', ''a.dcm''] [''out'', ''a.dcm''] None
          sample_world = (Some r, w')"
    by blast
  from C1_output_transfer_syntax [OF h] h show ?thesis
    by (auto simp: ExplicitVRLittleEndian_def)
qed

lemma is_compressed_files: "files (snd (is_compressed file_path w)) = files w"
  by (simp add: is_compressed_def logging_def split: sum.splits)

lemma is_compressed_iff:
  "fst (is_compressed file_path w) \<longleftrightarrow>
     (\<exists>ds uid. files w file_path = Some (DicomFile ds) \<and> TransferSyntaxUID ds = Some uid
               \<and> uid \<in> set compressed_uids)"
proof (cases "files w file_path")
  case None
  then show ?thesis by (auto simp: is_compressed_def dcmread_def)
next
  case (Some c)
  show ?thesis
  proof (cases c)
    case (DicomFile ds)
    with Some show ?thesis
      by (cases "TransferSyntaxUID ds") (auto simp: is_compressed_def dcmread_def getattr_def)
  next
    case (OtherFile b)
    with Some show ?thesis by (auto simp: is_compressed_def dcmread_def)
  qed
qed

lemma is_compressed_unreadable:
  assumes "\<not> (\<exists>ds uid. files w file_path = Some (DicomFile ds) \<and> TransferSyntaxUID ds = Some uid)"
  shows "\<exists>e. is_compressed file_path w = (False, logging ERROR (Error_reading_file file_path e) w)"
proof (cases "files w file_path")
  case None
  then show ?thesis by (auto simp: is_compressed_def dcmread_def)
next
  case (Some c)
  show ?thesis
  proof (cases c)
    case (DicomFile ds)
    with Some assms show ?thesis
      by (cases "TransferSyntaxUID ds") (auto simp: is_compressed_def dcmread_def getattr_def)
  next
    case (OtherFile b)
    with Some show ?thesis by (auto simp: is_compressed_def dcmread_def)
  qed
qed

text \<open>
  Claim C2. \<^verbatim>\<open>is_compressed\<close> answers \<open>True\<close> exactly when the file can be read
  as DICOM, has a transfer syntax, and that identifier is in the hardcoded
  list. When the file cannot be read or has no transfer syntax, the answer
  is \<open>False\<close> and the only effect is one error record naming the path; the
  function has no exceptional result, and it never changes a file.
\<close>

theorem C2_is_compressed:
  "(fst (is_compressed file_path w) \<longleftrightarrow>
      (\<exists>ds uid. files w file_path = Some (DicomFile ds) \<and> TransferSyntaxUID ds = Some uid
                \<and> uid \<in> set compressed_uids))
   \<and> (\<not> (\<exists>ds uid. files w file_path = Some (DicomFile ds) \<and> TransferSyntaxUID ds = Some uid)
        \<longrightarrow> (\<exists>e. is_compressed file_path w =
                    (False, logging ERROR (Error_reading_file file_path e) w)))
   \<and> files (snd (is_compressed file_path w)) = files w"
  using is_compressed_iff [of file_path w] is_compressed_unreadable [of w file_path]
    is_compressed_files [of file_path w]
  by blast

theorem C2_is_compressed_witness:
  "fst (is_compressed [''in'', ''a.dcm''] sample_world)
   \<and> (\<exists>e. is_compressed [''in'', ''b.txt''] sample_world =
        (False, logging ERROR (Error_reading_file [''in'', ''b.txt''] e) sample_world))
   \<and> (\<exists>e. is_compressed [''in'', ''missing.dcm''] sample_world =
        (False, logging ERROR (Error_reading_file [''in'', ''missing.dcm''] e) sample_world))"
proof -
  have a: "files sample_world [''in'', ''a.dcm''] = Some (DicomFile sample_dataset)"
    and b: "files sample_world [''in'', ''b.txt''] = Some (OtherFile [0x68, 0x69])"
    and c: "files sample_world [''in'', ''missing.dcm''] = None"
    by (simp_all add: sample_world_def)
  have u: "TransferSyntaxUID sample_dataset = Some ''1.2.840.10008.1.2.4.50''"
    and m: "''1.2.840.10008.1.2.4.50'' \<in> set compressed_uids"
    by (simp_all add: sample_dataset_def compressed_uids_def)
  have 1: "fst (is_compressed [''in'', ''a.dcm''] sample_world)"
    using C2_is_compressed [of "[''in'', ''a.dcm'']" sample_world] a u m by blast
  have 2: "\<exists>e. is_compressed [''in'', ''b.txt''] sample_world =
        (False, logging ERROR (Error_reading_file [''in'', ''b.txt''] e) sample_world)"
    using C2_is_compressed [of "[''in'', ''b.txt'']" sample_world] b by simp
  have 3: "\<exists>e. is_compressed [''in'', ''missing.dcm''] sample_world =
        (False, logging ERROR (Error_reading_file [''in'', ''missing.dcm''] e) sample_world)"
    using C2_is_compressed [of "[''in'', ''missing.dcm'']" sample_world] c by simp
  from 1 2 3 show ?thesis by blast
qed

text \<open>
  What the converter writes, in full: the dataset read from the input with
  the decoded pixel data, the normalised instance number and the
  uncompressed transfer syntax and, under a reference, the five series
  fields of the reference.
\<close>

lemma converter_success:
  assumes "decompress_and_save_with_metadata env fp out ref w = (Some r, w')"
  shows "\<exists>ds arr n own.
      dcmread w fp False = Inr ds
    \<and> sitk_GetArrayFromImage env w fp = Inr arr
    \<and> (case InstanceNumber ds of Some v \<Rightarrow> py_int v | None \<Rightarrow> Inr 1) = Inr n
    \<and> own = (set_pixel_data arr ds)\<lparr>InstanceNumber := Some (VInt n),
                                     TransferSyntaxUID := Some ExplicitVRLittleEndian\<rparr>
    \<and> (truthy ref \<longrightarrow> (\<exists>v1 v2 v3 v4 v5.
        SeriesInstanceUID (the ref) = Some v1 \<and> StudyInstanceUID (the ref) = Some v2
      \<and> SeriesNumber (the ref) = Some v3 \<and> ImageOrientationPatient (the ref) = Some v4
      \<and> ImagePositionPatient (the ref) = Some v5
      \<and> files w' out = Some (DicomFile (own\<lparr>SeriesInstanceUID := Some v1,
            StudyInstanceUID := Some v2, SeriesNumber := Some v3,
            ImageOrientationPatient := Some v4, ImagePositionPatient := Some v5\<rparr>))
      \<and> r = the ref))
    \<and> (\<not> truthy ref \<longrightarrow> files w' out = Some (DicomFile own) \<and> r = own)"
proof -
  from assms have "try_block env fp out ref w = (Inr r, w')"
    by (simp add: converter_Some)
  then obtain ds arr ds3 ds4 where
    1: "dcmread w fp False = Inr ds" and
    2: "sitk_GetArrayFromImage env w fp = Inr arr" and
    3: "apply_reference ref (set_pixel_data arr ds) = Inr ds3" and
    4: "normalize_instance_number ds3 = Inr ds4" and
    6: "w' = logging DEBUG (Decompressed_and_saved_file out)
            (w\<lparr>files := (files w)(out \<mapsto>
               DicomFile (ds4\<lparr>TransferSyntaxUID := Some ExplicitVRLittleEndian\<rparr>))\<rparr>)" and
    7: "r = (if truthy ref then the ref else ds4\<lparr>TransferSyntaxUID := Some ExplicitVRLittleEndian\<rparr>)"
    by (rule try_block_Inr)
  from 4 obtain n where
    n: "(case InstanceNumber ds3 of Some v \<Rightarrow> py_int v | None \<Rightarrow> Inr 1) = Inr n" and
    ds4: "ds4 = ds3\<lparr>InstanceNumber := Some (VInt n)\<rparr>"
    by (rule normalize_instance_number_Inr)
  have "InstanceNumber ds3 = InstanceNumber (set_pixel_data arr ds)"
    using 3 by (rule apply_reference_InstanceNumber)
  then have i: "InstanceNumber ds3 = InstanceNumber ds"
    by (simp add: set_pixel_data_eq)
  define own where "own = (set_pixel_data arr ds)\<lparr>InstanceNumber := Some (VInt n),
                                     TransferSyntaxUID := Some ExplicitVRLittleEndian\<rparr>"
  have f: "files w' out = Some (DicomFile (ds4\<lparr>TransferSyntaxUID := Some ExplicitVRLittleEndian\<rparr>))"
    by (simp add: 6 logging_def)
  have a: "\<exists>v1 v2 v3 v4 v5.
        SeriesInstanceUID (the ref) = Some v1 \<and> StudyInstanceUID (the ref) = Some v2
      \<and> SeriesNumber (the ref) = Some v3 \<and> ImageOrientationPatient (the ref) = Some v4
      \<and> ImagePositionPatient (the ref) = Some v5
      \<and> files w' out = Some (DicomFile (own\<lparr>SeriesInstanceUID := Some v1,
            StudyInstanceUID := Some v2, SeriesNumber := Some v3,
            ImageOrientationPatient := Some v4, ImagePositionPatient := Some v5\<rparr>))
      \<and> r = the ref" if t: "truthy ref"
  proof -
    from 3 t have "stamp_reference (the ref) (set_pixel_data arr ds) = Inr ds3"
      by (simp add: apply_reference_def)
    then obtain v1 v2 v3 v4 v5 where
      v: "SeriesInstanceUID (the ref) = Some v1" "StudyInstanceUID (the ref) = Some v2"
         "SeriesNumber (the ref) = Some v3" "ImageOrientationPatient (the ref) = Some v4"
         "ImagePositionPatient (the ref) = Some v5" and
      ds3: "ds3 = (set_pixel_data arr ds)\<lparr>SeriesInstanceUID := Some v1, StudyInstanceUID := Some v2,
               SeriesNumber := Some v3, ImageOrientationPatient := Some v4,
               ImagePositionPatient := Some v5\<rparr>"
      by (rule stamp_reference_Inr)
    have "ds4\<lparr>TransferSyntaxUID := Some ExplicitVRLittleEndian\<rparr> =
          own\<lparr>SeriesInstanceUID := Some v1, StudyInstanceUID := Some v2, SeriesNumber := Some v3,
              ImageOrientationPatient := Some v4, ImagePositionPatient := Some v5\<rparr>"
      by (simp add: ds4 ds3 own_def)
    with f v 7 t show ?thesis by simp
  qed
  have b: "files w' out = Some (DicomFile own) \<and> r = own" if t: "\<not> truthy ref"
  proof -
    from 3 t have "ds3 = set_pixel_data arr ds" by (simp add: apply_reference_def)
    then have "ds4\<lparr>TransferSyntaxUID := Some ExplicitVRLittleEndian\<rparr> = own"
      by (simp add: ds4 own_def)
    with f 7 t show ?thesis by simp
  qed
  from 1 2 n i own_def a b show ?thesis by auto
qed

text \<open>
  Claim C5. On success under a reference (a dataset that Python's condition
  \<^verbatim>\<open>if reference_metadata\<close> accepts: not \<^verbatim>\<open>None\<close> and with at least one
  element), the written dataset is the file's own converted dataset with
  exactly the series identifier, study identifier, series number, image
  orientation and image position replaced by the values of the reference,
  and the reference itself is returned. With no reference, the file's own
  converted dataset is written and is the snapshot returned.
\<close>

theorem C5_reference_metadata:
  assumes "decompress_and_save_with_metadata env file_path output_path reference_metadata w
             = (Some r, w')"
  shows "\<exists>ds arr n own.
           dcmread w file_path False = Inr ds
         \<and> sitk_GetArrayFromImage env w file_path = Inr arr
         \<and> (case InstanceNumber ds of Some v \<Rightarrow> py_int v | None \<Rightarrow> Inr 1) = Inr n
         \<and> own = (set_pixel_data arr ds)\<lparr>InstanceNumber := Some (VInt n),
                     TransferSyntaxUID := Some ExplicitVRLittleEndian\<rparr>
         \<and> (if truthy reference_metadata
             then \<exists>ref v1 v2 v3 v4 v5.
                    reference_metadata = Some ref
                  \<and> SeriesInstanceUID ref = Some v1 \<and> StudyInstanceUID ref = Some v2
                  \<and> SeriesNumber ref = Some v3 \<and> ImageOrientationPatient ref = Some v4
                  \<and> ImagePositionPatient ref = Some v5
                  \<and> files w' output_path =
                      Some (DicomFile (own\<lparr>SeriesInstanceUID := Some v1,
                        StudyInstanceUID := Some v2, SeriesNumber := Some v3,
                        ImageOrientationPatient := Some v4, ImagePositionPatient := Some v5\<rparr>))
                  \<and> r = ref
             else files w' output_path = Some (DicomFile own) \<and> r = own)"
proof -
  obtain ds arr n own where
    1: "dcmread w file_path False = Inr ds" and
    2: "sitk_GetArrayFromImage env w file_path = Inr arr" and
    3: "(case InstanceNumber ds of Some v \<Rightarrow> py_int v | None \<Rightarrow> Inr 1) = Inr n" and
    4: "own = (set_pixel_data arr ds)\<lparr>InstanceNumber := Some (VInt n),
                                     TransferSyntaxUID := Some ExplicitVRLittleEndian\<rparr>" and
    a: "truthy reference_metadata \<longrightarrow> (\<exists>v1 v2 v3 v4 v5.
        SeriesInstanceUID (the reference_metadata) = Some v1
      \<and> StudyInstanceUID (the reference_metadata) = Some v2
      \<and> SeriesNumber (the reference_metadata) = Some v3
      \<and> ImageOrientationPatient (the reference_metadata) = Some v4
      \<and> ImagePositionPatient (the reference_metadata) = Some v5
      \<and> files w' output_path = Some (DicomFile (own\<lparr>SeriesInstanceUID := Some v1,
            StudyInstanceUID := Some v2, SeriesNumber := Some v3,
            ImageOrientationPatient := Some v4, ImagePositionPatient := Some v5\<rparr>))
      \<and> r = the reference_metadata)" and
    b: "\<not> truthy reference_metadata \<longrightarrow> files w' output_path = Some (DicomFile own) \<and> r = own"
    using converter_success [OF assms] by blast
  show ?thesis
  proof (cases "truthy reference_metadata")
    case True
    then obtain ref where ref: "reference_metadata = Some ref"
      by (cases reference_metadata) (simp_all add: truthy_def)
    from a True ref 1 2 3 4 True show ?thesis by auto
  next
    case False
    from b False 1 2 3 4 False show ?thesis by auto
  qed
qed

theorem C5_reference_metadata_witness:
  "(\<exists>r w' dsw. decompress_and_save_with_metadata sample_env [''in'', ''a.dcm''] [''out'', ''a.dcm'']
             (Some other_series_dataset) sample_world = (Some r, w')
      \<and> r = other_series_dataset
      \<and> files w' [''out'', ''a.dcm''] = Some (DicomFile dsw)
      \<and> SeriesInstanceUID dsw = Some (VStr ''9.9.9.1'')
      \<and> StudyInstanceUID dsw = Some (VStr ''9.9.9'')
      \<and> SeriesNumber dsw = Some (VInt 2)
      \<and> ImagePositionPatient dsw = Some (VMulti [VStr ''3'', VStr ''0'', VStr ''0''])
      \<and> other_elements dsw = [(''PatientID'', VStr ''P1'')])
   \<and> (\<exists>r w'. decompress_and_save_with_metadata sample_env [''in'', ''a.dcm''] [''out'', ''a.dcm'']
             None sample_world = (Some r, w')
      \<and> files w' [''out'', ''a.dcm''] = Some (DicomFile r)
      \<and> SeriesInstanceUID r = Some (VStr ''1.2.3.1''))"
proof -
  from sample_conversion_with_reference obtain r w' where
    h: "decompress_and_save_with_metadata sample_env [''in'', ''a.dcm''] [''out'', ''a.dcm'']
          (Some other_series_dataset) sample_world = (Some r, w')"
    by blast
  have t: "truthy (Some other_series_dataset)"
    by (simp add: truthy_def dataset_len_def other_series_dataset_def)
  have d: "dcmread sample_world [''in'', ''a.dcm''] False = Inr sample_dataset"
    by (simp add: dcmread_def sample_world_def)
  from C5_reference_metadata [OF h] t d obtain arr n v1 v2 v3 v4 v5 where
    v: "SeriesInstanceUID other_series_dataset = Some v1"
       "StudyInstanceUID other_series_dataset = Some v2"
       "SeriesNumber other_series_dataset = Some v3"
       "ImageOrientationPatient other_series_dataset = Some v4"
       "ImagePositionPatient other_series_dataset = Some v5" and
    f: "files w' [''out'', ''a.dcm''] =
          Some (DicomFile ((set_pixel_data arr sample_dataset)\<lparr>InstanceNumber := Some (VInt n),
                     TransferSyntaxUID := Some ExplicitVRLittleEndian\<rparr>
                  \<lparr>SeriesInstanceUID := Some v1,
                   StudyInstanceUID := Some v2, SeriesNumber := Some v3,
                   ImageOrientationPatient := Some v4, ImagePositionPatient := Some v5\<rparr>))" and
    r: "r = other_series_dataset"
    by auto
  from v have v': "v1 = VStr ''9.9.9.1''" "v2 = VStr ''9.9.9''" "v3 = VInt 2"
    "v5 = VMulti [VStr ''3'', VStr ''0'', VStr ''0'']"
    by (simp_all add: other_series_dataset_def)
  have o: "other_elements (set_pixel_data arr sample_dataset) = [(''PatientID'', VStr ''P1'')]"
    by (simp add: set_pixel_data_eq sample_dataset_def)
  have first: "\<exists>r w' dsw. decompress_and_save_with_metadata sample_env [''in'', ''a.dcm'']
             [''out'', ''a.dcm''] (Some other_series_dataset) sample_world = (Some r, w')
      \<and> r = other_series_dataset
      \<and> files w' [''out'', ''a.dcm''] = Some (DicomFile dsw)
      \<and> SeriesInstanceUID dsw = Some (VStr ''9.9.9.1'')
      \<and> StudyInstanceUID dsw = Some (VStr ''9.9.9'')
      \<and> SeriesNumber dsw = Some (VInt 2)
      \<and> ImagePositionPatient dsw = Some (VMulti [VStr ''3'', VStr ''0'', VStr ''0''])
      \<and> other_elements dsw = [(''PatientID'', VStr ''P1'')]"
    using h r f v' o by simp
  from sample_conversion obtain r2 w2 where
    h2: "decompress_and_save_with_metadata sample_env [''in'', ''a.dcm''] [''out'', ''a.dcm''] None
          sample_world = (Some r2, w2)"
    by blast
  have t2: "\<not> truthy None" by (simp add: truthy_def)
  from C5_reference_metadata [OF h2] t2 d obtain arr2 n2 where
    f2: "files w2 [''out'', ''a.dcm''] = Some (DicomFile r2)" and
    r2: "r2 = (set_pixel_data arr2 sample_dataset)\<lparr>InstanceNumber := Some (VInt n2),
                     TransferSyntaxUID := Some ExplicitVRLittleEndian\<rparr>"
    by auto
  have "SeriesInstanceUID r2 = Some (VStr ''1.2.3.1'')"
    by (simp add: r2 set_pixel_data_eq sample_dataset_def)
  with h2 f2 have second: "\<exists>r w'. decompress_and_save_with_metadata sample_env [''in'', ''a.dcm'']
             [''out'', ''a.dcm''] None sample_world = (Some r, w')
      \<and> files w' [''out'', ''a.dcm''] = Some (DicomFile r)
      \<and> SeriesInstanceUID r = Some (VStr ''1.2.3.1'')"
    by simp
  from first second show ?thesis by (rule conjI)
qed

text \<open>
  Claim C6. On success the instance number of the written dataset is an
  integer: the value \<^verbatim>\<open>int\<close> gives for the instance number of the input
  when the input has one, and 1 when it has none.
\<close>

theorem C6_instance_number:
  assumes "decompress_and_save_with_metadata env file_path output_path reference_metadata w
             = (Some r, w')"
  shows "\<exists>ds dsw n.
           dcmread w file_path False = Inr ds
         \<and> files w' output_path = Some (DicomFile dsw)
         \<and> InstanceNumber dsw = Some (VInt n)
         \<and> (case InstanceNumber ds of Some v \<Rightarrow> py_int v = Inr n | None \<Rightarrow> n = 1)"
proof -
  obtain ds arr n own where
    1: "dcmread w file_path False = Inr ds" and
    3: "(case InstanceNumber ds of Some v \<Rightarrow> py_int v | None \<Rightarrow> Inr 1) = Inr n" and
    4: "own = (set_pixel_data arr ds)\<lparr>InstanceNumber := Some (VInt n),
                                     TransferSyntaxUID := Some ExplicitVRLittleEndian\<rparr>" and
    a: "truthy reference_metadata \<longrightarrow> (\<exists>v1 v2 v3 v4 v5.
        SeriesInstanceUID (the reference_metadata) = Some v1
      \<and> StudyInstanceUID (the reference_metadata) = Some v2
      \<and> SeriesNumber (the reference_metadata) = Some v3
      \<and> ImageOrientationPatient (the reference_metadata) = Some v4
      \<and> ImagePositionPatient (the reference_metadata) = Some v5
      \<and> files w' output_path = Some (DicomFile (own\<lparr>SeriesInstanceUID := Some v1,
            StudyInstanceUID := Some v2, SeriesNumber := Some v3,
            ImageOrientationPatient := Some v4, ImagePositionPatient := Some v5\<rparr>))
      \<and> r = the reference_metadata)" and
    b: "\<not> truthy reference_metadata \<longrightarrow> files w' output_path = Some (DicomFile own) \<and> r = own"
    using converter_success [OF assms] by blast
  have c: "(case InstanceNumber ds of Some v \<Rightarrow> py_int v = Inr n | None \<Rightarrow> n = 1)"
    using 3 by (cases "InstanceNumber ds") simp_all
  have "\<exists>dsw. files w' output_path = Some (DicomFile dsw) \<and> InstanceNumber dsw = Some (VInt n)"
  proof (cases "truthy reference_metadata")
    case True
    from a True 4 show ?thesis by auto
  next
    case False
    from b False 4 show ?thesis by auto
  qed
  with 1 c show ?thesis by blast
qed

theorem C6_instance_number_witness:
  "(\<exists>r w' dsw. decompress_and_save_with_metadata sample_env [''in'', ''a.dcm''] [''out'', ''a.dcm'']
       None sample_world = (Some r, w')
     \<and> files w' [''out'', ''a.dcm''] = Some (DicomFile dsw)
     \<and> InstanceNumber dsw = Some (VInt 7))"
proof -
  from sample_conversion obtain r w' where
    h: "decompress_and_save_with_metadata sample_env [''in'', ''a.dcm''] [''out'', ''a.dcm''] None
          sample_world = (Some r, w')"
    by blast
  have d: "dcmread sample_world [''in'', ''a.dcm''] False = Inr sample_dataset"
    by (simp add: dcmread_def sample_world_def)
  have i: "InstanceNumber sample_dataset = Some (VStr '' 7 '')"
    by (simp add: sample_dataset_def)
  have p: "py_int (VStr '' 7 '') = Inr 7"
    by (simp add: int_defs)
  from C6_instance_number [OF h] d i p h show ?thesis by auto
qed

text \<open>
  Claim C7. On success the pixel data element of the written dataset holds
  the bytes of the decoded array, with value representation \<open>OW\<close> when the
  samples are 16 bits wide, which among the dtypes a decode produces means
  \<open>uint16\<close> or \<open>int16\<close>, and \<open>OB\<close> for every other dtype.
\<close>

theorem C7_pixel_data_vr:
  assumes "decompress_and_save_with_metadata env file_path output_path reference_metadata w
             = (Some r, w')"
  shows "\<exists>arr dsw.
           sitk_GetArrayFromImage env w file_path = Inr arr
         \<and> files w' output_path = Some (DicomFile dsw)
         \<and> PixelData dsw =
             Some \<lparr>VR = (if sample_bits (dtype arr) = 16 then ''OW'' else ''OB''),
                   elem_value = tobytes arr\<rparr>
         \<and> (sample_bits (dtype arr) = 16 \<longleftrightarrow> dtype arr = UInt16 \<or> dtype arr = Int16)"
proof -
  obtain ds arr n own where
    2: "sitk_GetArrayFromImage env w file_path = Inr arr" and
    4: "own = (set_pixel_data arr ds)\<lparr>InstanceNumber := Some (VInt n),
                                     TransferSyntaxUID := Some ExplicitVRLittleEndian\<rparr>" and
    a: "truthy reference_metadata \<longrightarrow> (\<exists>v1 v2 v3 v4 v5.
        SeriesInstanceUID (the reference_metadata) = Some v1
      \<and> StudyInstanceUID (the reference_metadata) = Some v2
      \<and> SeriesNumber (the reference_metadata) = Some v3
      \<and> ImageOrientationPatient (the reference_metadata) = Some v4
      \<and> ImagePositionPatient (the reference_metadata) = Some v5
      \<and> files w' output_path = Some (DicomFile (own\<lparr>SeriesInstanceUID := Some v1,
            StudyInstanceUID := Some v2, SeriesNumber := Some v3,
            ImageOrientationPatient := Some v4, ImagePositionPatient := Some v5\<rparr>))
      \<and> r = the reference_metadata)" and
    b: "\<not> truthy reference_metadata \<longrightarrow> files w' output_path = Some (DicomFile own) \<and> r = own"
    using converter_success [OF assms] by blast
  have p: "PixelData own =
             Some \<lparr>VR = (if sample_bits (dtype arr) = 16 then ''OW'' else ''OB''),
                   elem_value = tobytes arr\<rparr>"
    by (simp add: 4 set_pixel_data_eq sample_bits_16)
  have "\<exists>dsw. files w' output_path = Some (DicomFile dsw) \<and> PixelData dsw = PixelData own"
  proof (cases "truthy reference_metadata")
    case True
    from a True show ?thesis by auto
  next
    case False
    from b False show ?thesis by auto
  qed
  with 2 p sample_bits_16 [of "dtype arr"] show ?thesis by auto
qed

theorem C7_pixel_data_vr_witness:
  "(\<exists>r w' dsw. decompress_and_save_with_metadata sample_env [''in'', ''a.dcm''] [''out'', ''a.dcm'']
       None sample_world = (Some r, w')
     \<and> files w' [''out'', ''a.dcm''] = Some (DicomFile dsw)
     \<and> PixelData dsw = Some \<lparr>VR = ''OW'', elem_value = [1, 0, 2, 0]\<rparr>)"
proof -
  from sample_conversion obtain r w' where
    h: "decompress_and_save_with_metadata sample_env [''in'', ''a.dcm''] [''out'', ''a.dcm''] None
          sample_world = (Some r, w')"
    by blast
  have d: "sitk_GetArrayFromImage sample_env sample_world [''in'', ''a.dcm'']
             = Inr \<lparr>dtype = UInt16, tobytes = [1, 0, 2, 0]\<rparr>"
    by (simp add: sitk_GetArrayFromImage_def sample_world_def sample_env_def)
  from C7_pixel_data_vr [OF h] d h show ?thesis by auto
qed

section \<open>Failures of the converter\<close>

text \<open>A raising \<^verbatim>\<open>try\<close> block writes no log record and touches no path but the output path.\<close>

lemma save_as_frame:
  "save_as env ds out w = (res, w1) \<Longrightarrow>
     log_records w1 = log_records w \<and> (\<forall>p. p \<noteq> out \<longrightarrow> files w1 p = files w p)"
  by (auto simp: save_as_def split: option.splits prod.splits)

lemma save_as_Inl:
  "fst (save_as env ds out w) = Inl e \<longleftrightarrow> (\<exists>c. save_failure env out ds = Some (e, c))"
  by (auto simp: save_as_def split: option.splits prod.splits)

lemma try_block_Inl_frame:
  assumes "try_block env fp out ref w = (Inl e, w1)"
  shows "log_records w1 = log_records w \<and> (\<forall>p. p \<noteq> out \<longrightarrow> files w1 p = files w p)"
proof (cases "dcmread w fp False")
  case (Inl a)
  with assms show ?thesis by (simp add: try_block_def)
next
  case (Inr ds)
  note 1 = this
  show ?thesis
  proof (cases "sitk_GetArrayFromImage env w fp")
    case (Inl a)
    with assms 1 show ?thesis by (simp add: try_block_def)
  next
    case (Inr arr)
    note 2 = this
    show ?thesis
    proof (cases "apply_reference ref (set_pixel_data arr ds)")
      case (Inl a)
      with assms 1 2 show ?thesis by (simp add: try_block_def)
    next
      case (Inr ds3)
      note 3 = this
      show ?thesis
      proof (cases "normalize_instance_number ds3")
        case (Inl a)
        with assms 1 2 3 show ?thesis by (simp add: try_block_def)
      next
        case (Inr ds4)
        note 4 = this
        obtain res w2 where s: "save_as env (ds4\<lparr>TransferSyntaxUID := Some ExplicitVRLittleEndian\<rparr>) out w = (res, w2)"
          by (cases "save_as env (ds4\<lparr>TransferSyntaxUID := Some ExplicitVRLittleEndian\<rparr>) out w")
        from assms 1 2 3 4 s have "w1 = w2"
          by (cases res) (simp_all add: try_block_def Let_def)
        with save_as_frame [OF s] show ?thesis by simp
      qed
    qed
  qed
qed

text \<open>The steps of the \<^verbatim>\<open>try\<close> block that can raise, in the order they run.\<close>

lemma try_block_Inl_iff:
  "fst (try_block env fp out ref w) = Inl e \<longleftrightarrow>
     dcmread w fp False = Inl e
   \<or> (\<exists>ds. dcmread w fp False = Inr ds
        \<and> (sitk_GetArrayFromImage env w fp = Inl e
           \<or> (\<exists>arr. sitk_GetArrayFromImage env w fp = Inr arr
                \<and> (apply_reference ref (set_pixel_data arr ds) = Inl e
                   \<or> (\<exists>ds3. apply_reference ref (set_pixel_data arr ds) = Inr ds3
                        \<and> (normalize_instance_number ds3 = Inl e
                           \<or> (\<exists>ds4 c. normalize_instance_number ds3 = Inr ds4
                                \<and> save_failure env out
                                     (ds4\<lparr>TransferSyntaxUID := Some ExplicitVRLittleEndian\<rparr>)
                                   = Some (e, c))))))))"
proof (cases "dcmread w fp False")
  case (Inl a)
  then show ?thesis by (simp add: try_block_def)
next
  case (Inr ds)
  note 1 = this
  show ?thesis
  proof (cases "sitk_GetArrayFromImage env w fp")
    case (Inl a)
    with 1 show ?thesis by (simp add: try_block_def)
  next
    case (Inr arr)
    note 2 = this
    show ?thesis
    proof (cases "apply_reference ref (set_pixel_data arr ds)")
      case (Inl a)
      with 1 2 show ?thesis by (simp add: try_block_def)
    next
      case (Inr ds3)
      note 3 = this
      show ?thesis
      proof (cases "normalize_instance_number ds3")
        case (Inl a)
        with 1 2 3 show ?thesis by (simp add: try_block_def)
      next
        case (Inr ds4)
        note 4 = this
        let ?ds5 = "ds4\<lparr>TransferSyntaxUID := Some ExplicitVRLittleEndian\<rparr>"
        have "fst (try_block env fp out ref w) = Inl e \<longleftrightarrow> fst (save_as env ?ds5 out w) = Inl e"
          using 1 2 3 4
          by (cases "save_as env ?ds5 out w") (auto simp: try_block_def Let_def split: sum.splits)
        with 1 2 3 4 show ?thesis by (simp add: save_as_Inl)
      qed
    qed
  qed
qed

lemma converter_None:
  assumes "fst (try_block env fp out ref w) = Inl e"
  shows "\<exists>w1. decompress_and_save_with_metadata env fp out ref w = (None, w1)
           \<and> log_records w1 = log_records w @ [(ERROR, Failed_to_decompress_file fp e)]
           \<and> (\<forall>p. p \<noteq> out \<longrightarrow> files w1 p = files w p)"
proof -
  obtain w0 where t: "try_block env fp out ref w = (Inl e, w0)"
    using assms by (cases "try_block env fp out ref w") simp
  from try_block_Inl_frame [OF t] t show ?thesis
    by (simp add: decompress_and_save_with_metadata_def logging_def)
qed

lemma converter_frame:
  "p \<noteq> out \<Longrightarrow> files (snd (decompress_and_save_with_metadata env fp out ref w)) p = files w p"
proof -
  assume p: "p \<noteq> out"
  obtain res w0 where t: "try_block env fp out ref w = (res, w0)"
    by (cases "try_block env fp out ref w")
  show ?thesis
  proof (cases res)
    case (Inl e)
    with t try_block_Inl_frame [of env fp out ref w e w0] p show ?thesis
      by (simp add: decompress_and_save_with_metadata_def logging_def)
  next
    case (Inr r)
    with t have "try_block env fp out ref w = (Inr r, w0)" by simp
    then obtain ds4 where
      "w0 = logging DEBUG (Decompressed_and_saved_file out)
            (w\<lparr>files := (files w)(out \<mapsto>
               DicomFile (ds4\<lparr>TransferSyntaxUID := Some ExplicitVRLittleEndian\<rparr>))\<rparr>)"
      by (rule try_block_Inr)
    with t Inr p show ?thesis
      by (simp add: decompress_and_save_with_metadata_def logging_def)
  qed
qed

section \<open>The walker\<close>

lemma lower_slash: "lower_char CHR ''/'' = CHR ''/''"
  by (simp add: lower_char_def)

lemma path_string_snoc: "path_string (root @ [file]) = path_string root @ CHR ''/'' # file"
  by (simp add: path_string_def)

lemma lower_path_string_snoc:
  "lower (path_string (root @ [file])) = lower (path_string root) @ CHR ''/'' # lower file"
  by (simp add: path_string_snoc lower_def lower_slash)

lemma suffix_dcm_after_slash:
  "suffix ''.dcm'' (a @ CHR ''/'' # f) \<longleftrightarrow> suffix ''.dcm'' f"
proof -
  have "\<not> (\<exists>xs'. ''.dcm'' = xs' @ CHR ''/'' # f)"
  proof
    assume "\<exists>xs'. ''.dcm'' = xs' @ CHR ''/'' # f"
    then obtain xs' where "''.dcm'' = xs' @ CHR ''/'' # f" ..
    then have "CHR ''/'' \<in> set ''.dcm''"
      by (metis in_set_conv_decomp)
    then show False by simp
  qed
  then show ?thesis
    by (auto simp: suffix_append suffix_Cons)
qed

lemma endswith_path_name:
  "endswith (lower (path_string (root @ [file]))) ''.dcm'' = endswith (lower file) ''.dcm''"
  by (simp add: endswith_def lower_path_string_snoc suffix_dcm_after_slash)

lemma commonprefix_append: "commonprefix xs (xs @ ys) = xs"
  by (induction xs) simp_all

lemma relpath_below:
  assumes "prefix input_dir root"
  shows "relpath (root @ [file]) input_dir = drop (length input_dir) (root @ [file])"
proof -
  from assms obtain sub where root: "root = input_dir @ sub"
    by (auto simp: prefix_def)
  have "commonprefix input_dir (root @ [file]) = input_dir"
    using commonprefix_append [of input_dir "sub @ [file]"] by (simp add: root)
  then show ?thesis
    by (simp add: relpath_def Let_def root)
qed

lemma is_compressed_True: "fst (is_compressed file_path w) \<Longrightarrow> is_compressed file_path w = (True, w)"
  by (auto simp: is_compressed_def split: sum.splits)

text \<open>The loop body, with the test on the name and the output path of the specification.\<close>

lemma process_file_spec:
  assumes "prefix input_dir root"
  shows "process_file env input_dir output_dir root file w =
     (if name_matches_spec file \<and> fst (is_compressed (root @ [file]) w)
      then (let w2 = logging DEBUG (Compressed_file_found (root @ [file])) w;
                output_file_path = output_path_spec input_dir output_dir (root @ [file])
            in case (if output_dir = None then None
                     else makedirs_failure env (butlast output_file_path)) of
                 Some e \<Rightarrow> (Some e, w2)
               | None \<Rightarrow>
                   (None, snd (decompress_and_save_with_metadata env (root @ [file])
                                 output_file_path None w2)))
      else (None,
            if name_matches_spec file
            then logging DEBUG (File_is_already_uncompressed (root @ [file]))
                   (snd (is_compressed (root @ [file]) w))
            else w))"
proof (cases "name_matches_spec file")
  case False
  then show ?thesis
    by (simp add: process_file_def name_matches_spec_def endswith_path_name)
next
  case True
  then have m: "endswith (lower (path_string (root @ [file]))) ''.dcm''"
    by (simp add: name_matches_spec_def endswith_path_name)
  show ?thesis
  proof (cases "fst (is_compressed (root @ [file]) w)")
    case False
    then obtain w1 where "is_compressed (root @ [file]) w = (False, w1)"
      by (cases "is_compressed (root @ [file]) w") simp
    with True m show ?thesis
      by (simp add: process_file_def)
  next
    case c: True
    then have ic: "is_compressed (root @ [file]) w = (True, w)"
      by (rule is_compressed_True)
    show ?thesis
    proof (cases output_dir)
      case None
      with True m c ic show ?thesis
        by (simp add: process_file_def output_path_spec_def Let_def)
    next
      case (Some out)
      with True m c ic relpath_below [OF assms] show ?thesis
        by (simp add: process_file_def output_path_spec_def Let_def dirname_def)
    qed
  qed
qed

lemma process_files_paths:
  "process_files env input_dir output_dir root fnames w =
   process_paths env input_dir output_dir (map (Pair root) fnames) w"
  by (induction fnames arbitrary: w) (auto split: prod.splits option.splits)

lemma process_paths_append:
  "process_paths env input_dir output_dir (xs @ ys) w =
     (case process_paths env input_dir output_dir xs w of
        (Some e, w') \<Rightarrow> (Some e, w')
      | (None, w') \<Rightarrow> process_paths env input_dir output_dir ys w')"
  by (induction xs arbitrary: w) (auto split: prod.splits option.splits)

lemma process_dicom_directory_paths:
  "process_dicom_directory env walk input_dir output_dir w =
   process_paths env input_dir output_dir (enumerated walk) w"
proof (induction walk arbitrary: w)
  case Nil
  then show ?case by (simp add: enumerated_def)
next
  case (Cons t walk)
  obtain root dirs fnames where t: "t = (root, dirs, fnames)" by (cases t)
  have e: "enumerated ((root, dirs, fnames) # walk) = map (Pair root) fnames @ enumerated walk"
    by (simp add: enumerated_def)
  show ?case
    using Cons.IH
    by (simp add: t e process_paths_append process_files_paths
          split: prod.splits option.splits)
qed

lemma is_compressed_cong:
  "files w1 fp = files w fp \<Longrightarrow> fst (is_compressed fp w1) = fst (is_compressed fp w)"
  by (simp add: is_compressed_iff)

lemma logging_files: "files (logging lvl msg w) = files w"
  by (simp add: logging_def)

lemma process_file_frame:
  assumes "prefix input_dir root"
      and "files (snd (process_file env input_dir output_dir root file w)) p \<noteq> files w p"
  shows "name_matches_spec file \<and> fst (is_compressed (root @ [file]) w)
         \<and> p = output_path_spec input_dir output_dir (root @ [file])"
proof -
  let ?fp = "root @ [file]"
  let ?out = "output_path_spec input_dir output_dir ?fp"
  let ?w2 = "logging DEBUG (Compressed_file_found ?fp) w"
  have mc: "name_matches_spec file \<and> fst (is_compressed ?fp w)"
  proof (rule ccontr)
    assume "\<not> ?thesis"
    then have "files (snd (process_file env input_dir output_dir root file w)) = files w"
      by (simp add: process_file_spec [OF assms(1)] logging_files is_compressed_files)
    with assms(2) show False by simp
  qed
  have "p = ?out"
  proof (rule ccontr)
    assume ne: "p \<noteq> ?out"
    have c: "files (snd (decompress_and_save_with_metadata env ?fp ?out None ?w2)) p = files w p"
      using converter_frame [OF ne, of env ?fp None ?w2] by (simp add: logging_files)
    have "files (snd (process_file env input_dir output_dir root file w)) p = files w p"
    proof (cases "if output_dir = None then None else makedirs_failure env (butlast ?out)")
      case None
      with mc c show ?thesis
        by (simp add: process_file_spec [OF assms(1)] Let_def)
    next
      case (Some e)
      with mc show ?thesis
        by (simp add: process_file_spec [OF assms(1)] Let_def logging_files)
    qed
    with assms(2) show False by simp
  qed
  with mc show ?thesis by simp
qed

lemma output_path_spec_last:
  assumes "prefix input_dir root"
  shows "output_path_spec input_dir output_dir (root @ [file]) \<noteq> []
         \<and> last (output_path_spec input_dir output_dir (root @ [file])) = file"
proof -
  from assms have "length input_dir \<le> length root"
    by (rule prefix_length_le)
  then show ?thesis
    by (cases output_dir) (simp_all add: output_path_spec_def)
qed

lemma output_path_spec_in_place [simp]: "output_path_spec input_dir None fp = fp"
  by (simp add: output_path_spec_def)

lemma changed_split:
  "files w2 p \<noteq> files w p \<Longrightarrow> files w1 p \<noteq> files w p \<or> files w2 p \<noteq> files w1 p"
  by auto

lemma output_paths_spec_Cons:
  "output_paths_spec i out ((root, file) # xs) =
     (if name_matches_spec file then {output_path_spec i out (root @ [file])} else {})
     \<union> output_paths_spec i out xs"
  by (auto simp: output_paths_spec_def)

text \<open>
  Every path whose content a walk changes is the output path of a listed
  file with a matching name, and that file was compressed at the start or
  is itself an output path of the walk.
\<close>

lemma process_paths_frame:
  assumes "\<forall>(root, file) \<in> set xs. prefix input_dir root"
      and "files (snd (process_paths env input_dir output_dir xs w)) p \<noteq> files w p"
  shows "\<exists>(root, file) \<in> set xs.
           name_matches_spec file
         \<and> p = output_path_spec input_dir output_dir (root @ [file])
         \<and> (fst (is_compressed (root @ [file]) w)
            \<or> root @ [file] \<in> output_paths_spec input_dir output_dir xs)"
  using assms
proof (induction xs arbitrary: w)
  case Nil
  then show ?case by simp
next
  case (Cons x xs)
  obtain root fname where x: "x = (root, fname)" by (cases x)
  from Cons.prems(1) x have pre: "prefix input_dir root"
    and pres: "\<forall>(r, f) \<in> set xs. prefix input_dir r"
    by auto
  obtain e w1 where s: "process_file env input_dir output_dir root fname w = (e, w1)"
    by (cases "process_file env input_dir output_dir root fname w")
  let ?final = "snd (process_paths env input_dir output_dir (x # xs) w)"
  show ?case
  proof (cases "files w1 p \<noteq> files w p")
    case True
    with s process_file_frame [OF pre, of env output_dir fname w p]
    have "name_matches_spec fname \<and> fst (is_compressed (root @ [fname]) w)
         \<and> p = output_path_spec input_dir output_dir (root @ [fname])"
      by simp
    then show ?thesis by (auto simp: x)
  next
    case False
    then have same: "files w1 p = files w p" by simp
    with Cons.prems(2) have fin: "files ?final p \<noteq> files w1 p" by simp
    have e: "e = None"
    proof (rule ccontr)
      assume "e \<noteq> None"
      with s x have "?final = w1" by auto
      with fin show False by simp
    qed
    with s x have "?final = snd (process_paths env input_dir output_dir xs w1)" by simp
    with fin have "files (snd (process_paths env input_dir output_dir xs w1)) p \<noteq> files w1 p"
      by simp
    from Cons.IH [OF pres this] obtain r f where
      rf: "(r, f) \<in> set xs" and m: "name_matches_spec f"
      and p: "p = output_path_spec input_dir output_dir (r @ [f])"
      and c: "fst (is_compressed (r @ [f]) w1)
            \<or> r @ [f] \<in> output_paths_spec input_dir output_dir xs"
      by auto
    have "fst (is_compressed (r @ [f]) w)
            \<or> r @ [f] \<in> output_paths_spec input_dir output_dir (x # xs)"
    proof (cases "files w1 (r @ [f]) = files w (r @ [f])")
      case True
      with c is_compressed_cong [OF True] show ?thesis
        by (auto simp: x output_paths_spec_Cons)
    next
      case False
      with s process_file_frame [OF pre, of env output_dir fname w "r @ [f]"]
      have "name_matches_spec fname
         \<and> r @ [f] = output_path_spec input_dir output_dir (root @ [fname])"
        by simp
      then show ?thesis by (simp add: x output_paths_spec_Cons)
    qed
    with rf m p show ?thesis by (auto simp: x)
  qed
qed

text \<open>In place, a path whose content changes was a compressed file of the listing at the start.\<close>

lemma process_paths_frame_in_place:
  assumes "\<forall>(root, file) \<in> set xs. prefix input_dir root"
      and "files (snd (process_paths env input_dir None xs w)) p \<noteq> files w p"
  shows "fst (is_compressed p w)"
  using assms
proof (induction xs arbitrary: w)
  case Nil
  then show ?case by simp
next
  case (Cons x xs)
  obtain root fname where x: "x = (root, fname)" by (cases x)
  from Cons.prems(1) x have pre: "prefix input_dir root"
    and pres: "\<forall>(r, f) \<in> set xs. prefix input_dir r"
    by auto
  obtain e w1 where s: "process_file env input_dir None root fname w = (e, w1)"
    by (cases "process_file env input_dir None root fname w")
  let ?final = "snd (process_paths env input_dir None (x # xs) w)"
  show ?case
  proof (cases "files w1 p \<noteq> files w p")
    case True
    with s process_file_frame [OF pre, of env None fname w p]
    show ?thesis by simp
  next
    case False
    then have same: "files w1 p = files w p" by simp
    with Cons.prems(2) have fin: "files ?final p \<noteq> files w1 p" by simp
    have e: "e = None"
    proof (rule ccontr)
      assume "e \<noteq> None"
      with s x have "?final = w1" by auto
      with fin show False by simp
    qed
    with s x have "?final = snd (process_paths env input_dir None xs w1)" by simp
    with fin have "files (snd (process_paths env input_dir None xs w1)) p \<noteq> files w1 p"
      by simp
    from Cons.IH [OF pres this] have "fst (is_compressed p w1)" .
    with is_compressed_cong [OF same] show ?thesis by simp
  qed
qed

section \<open>Claims on failures\<close>

text \<open>
  Claim C4. Whichever step of the converter raises (the read, the decode,
  the stamping from the reference, the coercion of the instance number, the
  write), the converter returns \<open>None\<close>, has logged one error record with
  the input path and the exception, and has touched no path but the output
  path. When the call is the one the walker makes for a file, the loop goes
  on with the remaining files from the world the converter has left.
\<close>

theorem C4_exceptions_caught:
  assumes "dcmread w file_path False = Inl e
   \<or> (\<exists>ds. dcmread w file_path False = Inr ds
        \<and> (sitk_GetArrayFromImage env w file_path = Inl e
           \<or> (\<exists>arr. sitk_GetArrayFromImage env w file_path = Inr arr
                \<and> (apply_reference reference_metadata (set_pixel_data arr ds) = Inl e
                   \<or> (\<exists>ds3. apply_reference reference_metadata (set_pixel_data arr ds) = Inr ds3
                        \<and> (normalize_instance_number ds3 = Inl e
                           \<or> (\<exists>ds4 c. normalize_instance_number ds3 = Inr ds4
                                \<and> save_failure env output_path
                                     (ds4\<lparr>TransferSyntaxUID := Some ExplicitVRLittleEndian\<rparr>)
                                   = Some (e, c))))))))"
  shows "\<exists>w1.
      decompress_and_save_with_metadata env file_path output_path reference_metadata w = (None, w1)
    \<and> log_records w1 = log_records w @ [(ERROR, Failed_to_decompress_file file_path e)]
    \<and> (\<forall>p. p \<noteq> output_path \<longrightarrow> files w1 p = files w p)
    \<and> (\<forall>input_dir output_dir root name rest w0.
          file_path = root @ [name]
        \<and> endswith (lower (path_string file_path)) ''.dcm''
        \<and> fst (is_compressed file_path w0)
        \<and> w = logging DEBUG (Compressed_file_found file_path) w0
        \<and> reference_metadata = None
        \<and> output_path = (case output_dir of None \<Rightarrow> file_path
                          | Some out \<Rightarrow> out @ relpath file_path input_dir)
        \<and> (output_dir \<noteq> None \<longrightarrow> makedirs_failure env (dirname output_path) = None)
        \<longrightarrow> process_files env input_dir output_dir root (name # rest) w0
              = process_files env input_dir output_dir root rest w1)"
proof -
  from assms have "fst (try_block env file_path output_path reference_metadata w) = Inl e"
    by (simp only: try_block_Inl_iff)
  from converter_None [OF this] obtain w1 where
    c: "decompress_and_save_with_metadata env file_path output_path reference_metadata w = (None, w1)"
    and l: "log_records w1 = log_records w @ [(ERROR, Failed_to_decompress_file file_path e)]"
    and f: "\<forall>p. p \<noteq> output_path \<longrightarrow> files w1 p = files w p"
    by blast
  have "process_files env input_dir output_dir root (name # rest) w0
              = process_files env input_dir output_dir root rest w1"
    if h: "file_path = root @ [name]"
          "endswith (lower (path_string file_path)) ''.dcm''"
          "fst (is_compressed file_path w0)"
          "w = logging DEBUG (Compressed_file_found file_path) w0"
          "reference_metadata = None"
          "output_path = (case output_dir of None \<Rightarrow> file_path
                          | Some out \<Rightarrow> out @ relpath file_path input_dir)"
          "output_dir \<noteq> None \<longrightarrow> makedirs_failure env (dirname output_path) = None"
    for input_dir output_dir root name rest w0
  proof -
    from h(3) have ic: "is_compressed file_path w0 = (True, w0)"
      by (rule is_compressed_True)
    have "process_file env input_dir output_dir root name w0 = (None, w1)"
    proof (cases output_dir)
      case None
      with h ic c show ?thesis
        by (simp add: process_file_def Let_def)
    next
      case (Some out)
      with h ic c show ?thesis
        by (simp add: process_file_def Let_def)
    qed
    then show ?thesis by simp
  qed
  with c l f show ?thesis by blast
qed

theorem C4_exceptions_caught_witness:
  "\<exists>w1. decompress_and_save_with_metadata failing_env [''in'', ''a.dcm''] [''in'', ''a.dcm''] None
           (logging DEBUG (Compressed_file_found [''in'', ''a.dcm'']) sample_world) = (None, w1)
     \<and> log_records w1 = [(DEBUG, Compressed_file_found [''in'', ''a.dcm'']),
                          (ERROR, Failed_to_decompress_file [''in'', ''a.dcm''] RuntimeError)]
     \<and> files w1 [''in'', ''b.txt''] = files sample_world [''in'', ''b.txt'']
     \<and> process_files failing_env [''in''] None [''in''] [''a.dcm'', ''b.txt''] sample_world
         = process_files failing_env [''in''] None [''in''] [''b.txt''] w1"
proof -
  let ?a = "[''in'', ''a.dcm'']"
  let ?w = "logging DEBUG (Compressed_file_found ?a) sample_world"
  have d: "dcmread ?w ?a False = Inr sample_dataset"
    by (simp add: dcmread_def logging_def sample_world_def)
  have s: "sitk_GetArrayFromImage failing_env ?w ?a = Inl RuntimeError"
    by (simp add: sitk_GetArrayFromImage_def logging_def sample_defs)
  have m: "endswith (lower (path_string ?a)) ''.dcm''"
    by (simp add: string_defs)
  have ic: "fst (is_compressed ?a sample_world)"
    by (simp add: is_compressed_iff sample_defs compressed_uids_def)
  from C4_exceptions_caught [of ?w ?a RuntimeError failing_env None ?a] d s
  obtain w1 where
    1: "decompress_and_save_with_metadata failing_env ?a ?a None ?w = (None, w1)" and
    2: "log_records w1 = log_records ?w @ [(ERROR, Failed_to_decompress_file ?a RuntimeError)]" and
    3: "\<forall>p. p \<noteq> ?a \<longrightarrow> files w1 p = files ?w p" and
    4: "\<forall>input_dir output_dir root name rest w0.
          ?a = root @ [name]
        \<and> endswith (lower (path_string ?a)) ''.dcm''
        \<and> fst (is_compressed ?a w0)
        \<and> ?w = logging DEBUG (Compressed_file_found ?a) w0
        \<and> (None :: dataset option) = None
        \<and> ?a = (case output_dir of None \<Rightarrow> ?a
                          | Some out \<Rightarrow> out @ relpath ?a input_dir)
        \<and> (output_dir \<noteq> None \<longrightarrow> makedirs_failure failing_env (dirname ?a) = None)
        \<longrightarrow> process_files failing_env input_dir output_dir root (name # rest) w0
              = process_files failing_env input_dir output_dir root rest w1"
    by auto
  from 2 have l: "log_records w1 = [(DEBUG, Compressed_file_found ?a),
                          (ERROR, Failed_to_decompress_file ?a RuntimeError)]"
    by (simp add: logging_def sample_world_def)
  from 3 have f: "files w1 [''in'', ''b.txt''] = files sample_world [''in'', ''b.txt'']"
    by (simp add: logging_def)
  from 4 [THEN spec [of _ "[''in'']"], THEN spec [of _ None], THEN spec [of _ "[''in'']"],
      THEN spec [of _ "''a.dcm''"], THEN spec [of _ "[''b.txt'']"], THEN spec [of _ sample_world]]
    m ic
  have "process_files failing_env [''in''] None [''in''] [''a.dcm'', ''b.txt''] sample_world
         = process_files failing_env [''in''] None [''in''] [''b.txt''] w1"
    by simp
  with 1 l f show ?thesis by blast
qed

lemma try_block_bad_instance:
  assumes "dcmread w fp False = Inr ds" "InstanceNumber ds = Some v" "py_int v = Inl e"
  shows "\<exists>e'. try_block env fp out ref w = (Inl e', w)
           \<and> (\<forall>arr ds3. sitk_GetArrayFromImage env w fp = Inr arr
                \<longrightarrow> apply_reference ref (set_pixel_data arr ds) = Inr ds3 \<longrightarrow> e' = e)"
proof (cases "sitk_GetArrayFromImage env w fp")
  case (Inl a)
  with assms(1) show ?thesis by (simp add: try_block_def)
next
  case (Inr arr)
  note 2 = this
  show ?thesis
  proof (cases "apply_reference ref (set_pixel_data arr ds)")
    case (Inl a)
    with assms(1) 2 show ?thesis by (simp add: try_block_def)
  next
    case (Inr ds3)
    have "InstanceNumber ds3 = InstanceNumber (set_pixel_data arr ds)"
      using Inr by (rule apply_reference_InstanceNumber)
    with assms(2) have "InstanceNumber ds3 = Some v"
      by (simp add: set_pixel_data_eq)
    with assms(3) have "normalize_instance_number ds3 = Inl e"
      by (simp add: normalize_instance_number_def)
    with assms(1) 2 Inr show ?thesis by (simp add: try_block_def)
  qed
qed

text \<open>
  Claim C10. When the input has an instance number that \<^verbatim>\<open>int\<close> rejects,
  the conversion fails as a whole: the converter returns \<open>None\<close>, logs one
  error record, and leaves every file as it was, the output path included
  (nothing is defaulted to 1 and nothing is written). The exception logged
  is the one of the coercion whenever the decode and the stamping that run
  before it succeed.
\<close>

theorem C10_bad_instance_number:
  assumes "dcmread w file_path False = Inr ds"
      and "InstanceNumber ds = Some v"
      and "py_int v = Inl e"
  shows "\<exists>e'. decompress_and_save_with_metadata env file_path output_path reference_metadata w
                 = (None, logging ERROR (Failed_to_decompress_file file_path e') w)
           \<and> files (logging ERROR (Failed_to_decompress_file file_path e') w) = files w
           \<and> (\<forall>arr ds3. sitk_GetArrayFromImage env w file_path = Inr arr
                \<longrightarrow> apply_reference reference_metadata (set_pixel_data arr ds) = Inr ds3
                \<longrightarrow> e' = e)"
proof -
  from try_block_bad_instance [OF assms, of env output_path reference_metadata]
  obtain e' where
    t: "try_block env file_path output_path reference_metadata w = (Inl e', w)" and
    e: "\<forall>arr ds3. sitk_GetArrayFromImage env w file_path = Inr arr
                \<longrightarrow> apply_reference reference_metadata (set_pixel_data arr ds) = Inr ds3
                \<longrightarrow> e' = e"
    by blast
  from t have "decompress_and_save_with_metadata env file_path output_path reference_metadata w
                 = (None, logging ERROR (Failed_to_decompress_file file_path e') w)"
    by (simp add: decompress_and_save_with_metadata_def)
  with e show ?thesis by (auto simp: logging_files)
qed

theorem C10_bad_instance_number_witness:
  "decompress_and_save_with_metadata sample_env [''in'', ''a.dcm''] [''out'', ''a.dcm''] None
     bad_instance_world
     = (None, logging ERROR (Failed_to_decompress_file [''in'', ''a.dcm''] ValueError)
                bad_instance_world)
   \<and> files (logging ERROR (Failed_to_decompress_file [''in'', ''a.dcm''] ValueError)
              bad_instance_world) [''out'', ''a.dcm''] = None"
proof -
  let ?a = "[''in'', ''a.dcm'']"
  have d: "dcmread bad_instance_world ?a False = Inr bad_instance_dataset"
    by (simp add: dcmread_def bad_instance_world_def)
  have i: "InstanceNumber bad_instance_dataset = Some (VStr ''seven'')"
    by (simp add: bad_instance_dataset_def)
  have p: "py_int (VStr ''seven'') = Inl ValueError"
    by (simp add: int_defs)
  have s: "sitk_GetArrayFromImage sample_env bad_instance_world ?a
             = Inr \<lparr>dtype = UInt16, tobytes = [1, 0, 2, 0]\<rparr>"
    by (simp add: sitk_GetArrayFromImage_def bad_instance_world_def sample_env_def)
  have a: "apply_reference None (set_pixel_data \<lparr>dtype = UInt16, tobytes = [1, 0, 2, 0]\<rparr>
             bad_instance_dataset)
           = Inr (set_pixel_data \<lparr>dtype = UInt16, tobytes = [1, 0, 2, 0]\<rparr> bad_instance_dataset)"
    by (simp add: apply_reference_def truthy_def)
  from C10_bad_instance_number [OF d i p, of sample_env "[''out'', ''a.dcm'']" None] s a
  obtain e' where
    1: "decompress_and_save_with_metadata sample_env ?a [''out'', ''a.dcm''] None bad_instance_world
          = (None, logging ERROR (Failed_to_decompress_file ?a e') bad_instance_world)" and
    2: "files (logging ERROR (Failed_to_decompress_file ?a e') bad_instance_world)
          = files bad_instance_world" and
    3: "e' = ValueError"
    by auto
  have "files bad_instance_world [''out'', ''a.dcm''] = None"
    by (simp add: bad_instance_world_def)
  with 1 2 3 show ?thesis by simp
qed

section \<open>Claims on the walk\<close>

lemmas walker_defs =
  process_file_def is_compressed_def relpath_def dirname_def

lemmas walker_spec_defs =
  walk_step_spec_def name_matches_spec_def output_path_spec_def is_compressed_def enumerated_def

lemma lower_IMG1: "lower ''IMG1.DCM'' = ''img1.dcm''"
  by code_simp

lemma process_paths_refines:
  assumes "\<forall>(root, name) \<in> set xs. prefix input_dir root"
  shows "process_paths env input_dir output_dir xs w
         = walkAndConvert_spec env input_dir output_dir xs w"
  using assms
proof (induction xs arbitrary: w)
  case Nil
  then show ?case by simp
next
  case (Cons x xs)
  obtain root fname where x: "x = (root, fname)" by (cases x)
  from Cons.prems x have pre: "prefix input_dir root"
    and pres: "\<forall>(r, f) \<in> set xs. prefix input_dir r"
    by auto
  have "process_file env input_dir output_dir root fname w
        = walk_step_spec env input_dir output_dir root fname w"
    by (simp add: process_file_spec [OF pre] walk_step_spec_def Let_def)
  with Cons.IH [OF pres] show ?case
    by (simp add: x split: prod.splits option.splits)
qed

lemma enumerated_roots:
  assumes "\<forall>(root, dirs, fnames) \<in> set walk. prefix input_dir root"
  shows "\<forall>(root, name) \<in> set (enumerated walk). prefix input_dir root"
  using assms by (auto simp: enumerated_def)

text \<open>
  Claim C8. Over the directories and file names that \<^verbatim>\<open>os.walk\<close> yields
  below the input root, the walker does what the specification says: a file
  goes to the converter exactly when its name ends with \<^verbatim>\<open>.dcm\<close>, whatever
  the case of its letters, and the classifier answers \<open>True\<close> on it; the
  output path is the path of the file below the input root appended to the
  output root when one is given (after its parent directories have been
  created), and the path of the file itself otherwise. Every other file is
  skipped. The one exit from the walk is a failing creation of the
  directories, which is not caught.
\<close>

theorem C8_walker_refines_spec:
  assumes "\<forall>(root, dirs, fnames) \<in> set walk. prefix input_dir root"
  shows "process_dicom_directory env walk input_dir output_dir w
         = walkAndConvert_spec env input_dir output_dir (enumerated walk) w"
  using process_paths_refines [OF enumerated_roots [OF assms]]
  by (simp add: process_dicom_directory_paths)

theorem C8_walker_refines_spec_witness:
  "process_dicom_directory sample_env nested_walk [''in''] (Some [''out'']) nested_world
     = walkAndConvert_spec sample_env [''in''] (Some [''out''])
         [([''in'', ''series1''], ''IMG1.DCM'')] nested_world
   \<and> (\<exists>ds. files (snd (process_dicom_directory sample_env nested_walk [''in''] (Some [''out''])
                        nested_world)) [''out'', ''series1'', ''IMG1.DCM'']
             = Some (DicomFile ds)
          \<and> TransferSyntaxUID ds = Some ''1.2.840.10008.1.2.1'')
   \<and> files (snd (process_dicom_directory sample_env nested_walk [''in''] (Some [''out''])
                   nested_world)) [''in'', ''series1'', ''IMG1.DCM'']
       = Some (DicomFile sample_dataset)"
proof -
  have r: "\<forall>(root, dirs, fnames) \<in> set nested_walk. prefix [''in''] root"
    by (simp add: nested_walk_def)
  have e: "enumerated nested_walk = [([''in'', ''series1''], ''IMG1.DCM'')]"
    by (simp add: enumerated_def nested_walk_def)
  note eq = C8_walker_refines_spec [OF r, of sample_env "Some [''out'']" nested_world,
      unfolded e]
  have v: "\<exists>ds. files (snd (walkAndConvert_spec sample_env [''in''] (Some [''out''])
                        [([''in'', ''series1''], ''IMG1.DCM'')] nested_world))
                   [''out'', ''series1'', ''IMG1.DCM'']
             = Some (DicomFile ds)
          \<and> TransferSyntaxUID ds = Some ''1.2.840.10008.1.2.1''"
    by (simp add: walker_spec_defs endswith_def lower_IMG1 suffix_Cons converter_defs
          sample_defs int_defs ExplicitVRLittleEndian_def compressed_uids_def)
  have u: "files (snd (walkAndConvert_spec sample_env [''in''] (Some [''out''])
                        [([''in'', ''series1''], ''IMG1.DCM'')] nested_world))
                   [''in'', ''series1'', ''IMG1.DCM'']
             = Some (DicomFile sample_dataset)"
    by (simp add: walker_spec_defs endswith_def lower_IMG1 suffix_Cons converter_defs
          sample_defs int_defs ExplicitVRLittleEndian_def compressed_uids_def)
  from eq v u show ?thesis by simp
qed

text \<open>
  Claim C9, as the code has it. A path whose content the walk changes is
  the output path of a listed file whose name matches; that file was
  compressed when the walk began or is itself an output path of the walk;
  and the last component of the changed path is a matching name, so no
  file with another name ever changes. Without an output root the changed
  path was itself a compressed file when the walk began, so no file that
  was uncompressed changes. With an output root, every file whose path is
  not an output path is unchanged: the input files too, unless the output
  tree maps onto them.
\<close>

theorem C9_writes_only_outputs:
  assumes "\<forall>(root, dirs, fnames) \<in> set walk. prefix input_dir root"
      and "files (snd (process_dicom_directory env walk input_dir output_dir w)) p \<noteq> files w p"
  shows "p \<noteq> [] \<and> name_matches_spec (last p)
       \<and> p \<in> output_paths_spec input_dir output_dir (enumerated walk)
       \<and> (\<exists>(root, name) \<in> set (enumerated walk).
             name_matches_spec name
           \<and> p = output_path_spec input_dir output_dir (root @ [name])
           \<and> (fst (is_compressed (root @ [name]) w)
              \<or> root @ [name] \<in> output_paths_spec input_dir output_dir (enumerated walk)))
       \<and> (output_dir = None \<longrightarrow> fst (is_compressed p w))"
proof -
  note roots = enumerated_roots [OF assms(1)]
  from assms(2) have ch:
    "files (snd (process_paths env input_dir output_dir (enumerated walk) w)) p \<noteq> files w p"
    by (simp add: process_dicom_directory_paths)
  from process_paths_frame [OF roots ch] obtain root name where
    rn: "(root, name) \<in> set (enumerated walk)" and m: "name_matches_spec name"
    and p: "p = output_path_spec input_dir output_dir (root @ [name])"
    and c: "fst (is_compressed (root @ [name]) w)
            \<or> root @ [name] \<in> output_paths_spec input_dir output_dir (enumerated walk)"
    by auto
  from roots rn have "prefix input_dir root" by auto
  from output_path_spec_last [OF this, of output_dir name] p m
  have l: "p \<noteq> [] \<and> name_matches_spec (last p)" by simp
  from rn m p have o: "p \<in> output_paths_spec input_dir output_dir (enumerated walk)"
    by (force simp: output_paths_spec_def)
  have i: "output_dir = None \<longrightarrow> fst (is_compressed p w)"
  proof
    assume "output_dir = None"
    with ch have
      "files (snd (process_paths env input_dir None (enumerated walk) w)) p \<noteq> files w p"
      by simp
    from process_paths_frame_in_place [OF roots this] show "fst (is_compressed p w)" .
  qed
  from rn m p c have "\<exists>(root, name) \<in> set (enumerated walk).
             name_matches_spec name
           \<and> p = output_path_spec input_dir output_dir (root @ [name])
           \<and> (fst (is_compressed (root @ [name]) w)
              \<or> root @ [name] \<in> output_paths_spec input_dir output_dir (enumerated walk))"
    by blast
  with l o i show ?thesis by blast
qed

lemma sample_walk_in_place_a:
  "files (snd (process_dicom_directory sample_env sample_walk [''in''] None sample_world))
     [''in'', ''a.dcm'']
   \<noteq> files sample_world [''in'', ''a.dcm'']"
  by (simp add: walker_defs string_defs converter_defs sample_defs int_defs
        ExplicitVRLittleEndian_def compressed_uids_def)

theorem C9_writes_only_outputs_witness:
  "files (snd (process_dicom_directory sample_env sample_walk [''in''] None sample_world))
     [''in'', ''a.dcm'']
   \<noteq> files sample_world [''in'', ''a.dcm'']
   \<and> name_matches_spec (last [''in'', ''a.dcm''])
   \<and> fst (is_compressed [''in'', ''a.dcm''] sample_world)
   \<and> files (snd (process_dicom_directory sample_env sample_walk [''in''] None sample_world))
        [''in'', ''b.txt'']
      = files sample_world [''in'', ''b.txt'']
   \<and> files (snd (process_dicom_directory sample_env sample_walk [''in''] (Some [''out''])
                   sample_world)) [''in'', ''a.dcm'']
      = files sample_world [''in'', ''a.dcm'']"
proof -
  have r: "\<forall>(root, dirs, fnames) \<in> set sample_walk. prefix [''in''] root"
    by (simp add: sample_walk_def)
  note a = C9_writes_only_outputs [OF r sample_walk_in_place_a]
  have b: "files (snd (process_dicom_directory sample_env sample_walk [''in''] None sample_world))
        [''in'', ''b.txt'']
      = files sample_world [''in'', ''b.txt'']"
  proof (rule ccontr)
    assume "\<not> ?thesis"
    from C9_writes_only_outputs [OF r this] have "name_matches_spec (last [''in'', ''b.txt''])"
      by simp
    then show False
      by (simp add: name_matches_spec_def string_defs)
  qed
  have c: "files (snd (process_dicom_directory sample_env sample_walk [''in''] (Some [''out''])
                   sample_world)) [''in'', ''a.dcm'']
      = files sample_world [''in'', ''a.dcm'']"
  proof (rule ccontr)
    assume "\<not> ?thesis"
    from C9_writes_only_outputs [OF r this]
    have "[''in'', ''a.dcm''] \<in> output_paths_spec [''in''] (Some [''out''])
            (enumerated sample_walk)"
      by simp
    then show False
      by (simp add: output_paths_spec_def output_path_spec_def enumerated_def sample_walk_def
            name_matches_spec_def string_defs)
  qed
  from a b c sample_walk_in_place_a show ?thesis by simp
qed

text \<open>
  The claim as it is written fails when the output root maps onto the input
  tree: with the input root as output root, the input file itself is
  rewritten.
\<close>

theorem C9_counterexample:
  "files (snd (process_dicom_directory sample_env sample_walk [''in''] (Some [''in''])
                 sample_world)) [''in'', ''a.dcm'']
   \<noteq> files sample_world [''in'', ''a.dcm'']"
  by (simp add: walker_defs string_defs converter_defs sample_defs int_defs
        ExplicitVRLittleEndian_def compressed_uids_def)

text \<open>
  Claim C3 against the code. The walker calls the converter with two
  arguments and drops what it returns, so no snapshot passes from one file
  to the next: in a walk over two compressed files of different series the
  second file keeps its own series fields.
\<close>

theorem C3_reference_not_threaded:
  "\<exists>dsa dsb.
      files (snd (process_dicom_directory sample_env two_series_walk [''in''] None
                    two_series_world)) [''in'', ''a.dcm''] = Some (DicomFile dsa)
    \<and> files (snd (process_dicom_directory sample_env two_series_walk [''in''] None
                    two_series_world)) [''in'', ''b.dcm''] = Some (DicomFile dsb)
    \<and> TransferSyntaxUID dsa = Some ExplicitVRLittleEndian
    \<and> TransferSyntaxUID dsb = Some ExplicitVRLittleEndian
    \<and> SeriesInstanceUID dsa = Some (VStr ''1.2.3.1'')
    \<and> SeriesInstanceUID dsb = Some (VStr ''9.9.9.1'')
    \<and> StudyInstanceUID dsb = Some (VStr ''9.9.9'')
    \<and> SeriesNumber dsb = Some (VInt 2)
    \<and> ImagePositionPatient dsb = Some (VMulti [VStr ''3'', VStr ''0'', VStr ''0''])"
  by (simp add: walker_defs string_defs converter_defs sample_defs int_defs
        ExplicitVRLittleEndian_def compressed_uids_def)


end
